theory Spec2Isabelle
  imports Main
begin

section \<open>The cheek job scheduler: retry controller, executor, cascade and schedule loading\<close>

text \<open>
  A shallow embedding of \<^verbatim>\<open>pkg/job.go\<close> (the job executor, the retry controller, the
  finalisation and the event cascade) and of the schedule file (\<^verbatim>\<open>Validate\<close>,
  \<^verbatim>\<open>loadSchedule\<close>, \<^verbatim>\<open>RunSchedule\<close>).

  Conventions.
  \<^item> Go's \<^verbatim>\<open>int\<close> is taken at 64 bits (amd64, arm64): values are HOL integers and the one
    addition of the source that can overflow, \<^verbatim>\<open>j.Retries+1\<close>, is wrapped by \<open>wrap64\<close>.
  \<^item> Everything the code asks of its surroundings (starting a process, the clocks, the log
    file, the template library, the cron library, the webhook call) is a field of the
    record \<open>os\<close>; the surroundings have a state of type \<open>'x\<close> that each such call may change.
  \<^item> Every effect the code has is an \<open>event\<close>; a function returns the events it caused,
    in order. The events of a goroutine are kept together under one node (\<open>GoJob\<close>,
    \<open>GoWebhook\<close>): the goroutines of one cascade are run one after the other, in the order
    in which the source starts them, which is one of the schedules that \<^verbatim>\<open>wg.Wait()\<close> allows.
  \<^item> A call that can panic or fail to return gives, with its events and the state in
    which it leaves the surroundings, the way it ended (\<open>ending\<close>): it returned, it
    panicked, or it has not returned (the cascade recursion is cut by a depth bound). The
    events are those that happened before the end, whichever it is.
\<close>

subsection \<open>Data model\<close>

text \<open>\<^verbatim>\<open>type OnEvent struct\<close>\<close>

record OnEvent =
  TriggerJob :: "string list"
  NotifyWebhook :: "string list"
  NotifySlackWebhook :: "string list"

text \<open>
  \<^verbatim>\<open>type JobSpec struct\<close>. \<open>globalSchedule\<close> is the pointer to the owning schedule
  (\<open>None\<close> is \<^verbatim>\<open>nil\<close>, \<open>Some a\<close> the schedule stored at \<open>a\<close>); \<open>Env\<close> lists the
  map in the order in which \<^verbatim>\<open>range\<close> visits it; \<open>SuppressLogs\<close> is \<^verbatim>\<open>cfg.SuppressLogs\<close>.
  The run cache \<^verbatim>\<open>Runs\<close>, \<^verbatim>\<open>nextTick\<close> and the logger handle are left out: the logger's
  output is part of the events.
\<close>

record JobSpec =
  Cron :: string
  Command :: "string list"
  Params :: "string \<rightharpoonup> string"
  OnSuccess :: OnEvent
  OnError :: OnEvent
  Name :: string
  Retries :: int
  Env :: "(string \<times> string) list"
  WorkingDirectory :: string
  globalSchedule :: "nat option"
  SuppressLogs :: bool

text \<open>
  \<^verbatim>\<open>type JobRun struct\<close>. Times and durations are in nanoseconds. The fields \<^verbatim>\<open>Name\<close>
  and \<^verbatim>\<open>Params\<close> are \<open>RunName\<close> and \<open>RunParams\<close> here.
\<close>

record JobRun =
  Status :: int
  logBuf :: string
  Log :: string
  RunName :: string
  TriggeredAt :: int
  TriggeredBy :: string
  Triggered :: "string list"
  Duration :: int
  RunParams :: "string \<rightharpoonup> string"
  jobRef :: "JobSpec option"

text \<open>The zero value \<^verbatim>\<open>JobRun{}\<close> (\<^verbatim>\<open>var jr JobRun\<close>).\<close>

definition zeroJobRun :: JobRun where
  "zeroJobRun = \<lparr>Status = 0, logBuf = [], Log = [], RunName = [], TriggeredAt = 0,
     TriggeredBy = [], Triggered = [], Duration = 0, RunParams = Map.empty, jobRef = None\<rparr>"

text \<open>
  The schedule, as \<^verbatim>\<open>job.go\<close> uses it: the job map and the schedule-wide
  \<^verbatim>\<open>OnSuccess\<close> and \<^verbatim>\<open>OnError\<close> (here \<open>SchedOnSuccess\<close>, \<open>SchedOnError\<close>). A missing key
  is the \<^verbatim>\<open>nil\<close> pointer that the Go map lookup returns.
\<close>

record Schedule =
  Jobs :: "string \<rightharpoonup> JobSpec"
  SchedOnSuccess :: OnEvent
  SchedOnError :: OnEvent

definition emptyOnEvent :: OnEvent where
  "emptyOnEvent = \<lparr>TriggerJob = [], NotifyWebhook = [], NotifySlackWebhook = []\<rparr>"

text \<open>The zero value \<^verbatim>\<open>Schedule{}\<close>.\<close>

definition zeroSchedule :: Schedule where
  "zeroSchedule = \<lparr>Jobs = Map.empty, SchedOnSuccess = emptyOnEvent, SchedOnError = emptyOnEvent\<rparr>"

subsection \<open>The surroundings\<close>

text \<open>
  What \<^verbatim>\<open>cmd.Start()\<close> followed by \<^verbatim>\<open>cmd.Wait()\<close> can give: the process does not start;
  it runs, writes \<open>out\<close> to the merged stdout and stderr, and \<^verbatim>\<open>Wait\<close> fails with an error
  that is not an \<^verbatim>\<open>*exec.ExitError\<close>; or it runs, writes \<open>out\<close> and exits with a code
  (\<^verbatim>\<open>Wait\<close> returns \<^verbatim>\<open>nil\<close> for code 0 and an \<^verbatim>\<open>*exec.ExitError\<close> carrying the code
  otherwise).
\<close>

datatype proc_outcome =
    StartFailed string
  | WaitFailed string string
  | Exited string int

text \<open>What opening the job log and encoding one record into it can give.\<close>

datatype log_outcome = LogWritten | OpenFailed string | EncodeFailed string

record ('t, 'x) os =
  start :: "string list \<Rightarrow> string list \<Rightarrow> string \<Rightarrow> 'x \<Rightarrow> proc_outcome \<times> 'x"
  environ :: "'x \<Rightarrow> string list"
  wall_clock :: "'x \<Rightarrow> int"
  sched_now :: "nat \<Rightarrow> 'x \<Rightarrow> int"
  sleep :: "int \<Rightarrow> 'x \<Rightarrow> 'x"
  log_file :: "string \<Rightarrow> string"
  append_log :: "string \<Rightarrow> JobRun \<Rightarrow> 'x \<Rightarrow> log_outcome \<times> 'x"
  webhook_call :: "JobRun \<Rightarrow> string \<Rightarrow> string \<Rightarrow> 'x \<Rightarrow> (string \<times> string option) \<times> 'x"
  tmpl_parse :: "string \<Rightarrow> 't option"
  tmpl_execute :: "'t \<Rightarrow> (string \<rightharpoonup> string) \<Rightarrow> string option"
  cron_valid :: "string \<Rightarrow> bool"

text \<open>
  The effects. Each logger call of the source is one constructor, named after its message:
  \<^item> \<open>LogJobTriggered job trigger\<close>: Info, "Job triggered" (\<^verbatim>\<open>execCommand\<close>);
  \<^item> \<open>LogNoCommand job trigger msg\<close>: Warn, the message is \<^verbatim>\<open>jr.Log\<close>;
  \<^item> \<open>LogUnableToStart job trigger status err\<close>: Warn, "job unable to start";
  \<^item> \<open>LogExitCode job code\<close>: Warn, "Exit code ...";
  \<^item> \<open>LogExited job status\<close>: Debug, "job exited status: ...", on the success path only;
  \<^item> \<open>LogCantOpen job file err\<close>, \<open>LogCantSave job err\<close>: the two warnings of \<^verbatim>\<open>logToDisk\<close>;
  \<^item> \<open>LogRetry job status\<close>: Debug, "job exited unsuccessfully, launching retry ...";
  \<^item> \<open>LogOnEvent job kind\<close>: Debug, "triggered by parent job";
  \<^item> \<open>LogWebhookFailed job err\<close>, \<open>LogWebhookResponse job url body\<close>: the webhook goroutines.
  The others are calls: \<open>Println\<close> is \<^verbatim>\<open>fmt.Println\<close>, \<open>Stdout\<close> what the
  \<^verbatim>\<open>io.MultiWriter\<close> mirrors to \<^verbatim>\<open>os.Stdout\<close>, \<open>ProcStart argv env dir\<close> is
  \<^verbatim>\<open>cmd.Start()\<close>, \<open>OpenLogFile\<close> is \<^verbatim>\<open>os.OpenFile\<close> in \<^verbatim>\<open>logToDisk\<close>, \<open>AppendLog\<close> a
  record that was encoded into the file, \<open>Sleep\<close> is \<^verbatim>\<open>time.Sleep\<close>, \<open>GoJob name trigger
  parameters evs\<close> the goroutine that runs \<^verbatim>\<open>tj.execCommandWithRetry(trigger, parameters)\<close>
  for the job looked up under \<open>name\<close>, and \<open>GoWebhook url kind evs\<close> the goroutine that
  runs \<^verbatim>\<open>JobRunWebhookCall(jr, url, kind)\<close>.
\<close>

datatype event =
    LogJobTriggered string string
  | LogNoCommand string string string
  | LogUnableToStart string string int string
  | LogExitCode string int
  | LogExited string int
  | LogCantOpen string string string
  | LogCantSave string string
  | LogRetry string int
  | LogOnEvent string string
  | LogWebhookFailed string string
  | LogWebhookResponse string string string
  | Println string
  | Stdout string
  | ProcStart "string list" "string list" string
  | OpenLogFile string
  | AppendLog string JobRun
  | Sleep int
  | GoJob string string "string \<rightharpoonup> string" "event list"
  | GoWebhook string string "event list"

type_synonym panic = string

subsection \<open>Formatting\<close>

text \<open>\<^verbatim>\<open>%v\<close> of an \<^verbatim>\<open>int\<close>: decimal digits, with a minus sign below zero.\<close>

fun show_nat :: "nat \<Rightarrow> string" where
  "show_nat n = (if n < 10 then [''0123456789'' ! n]
                 else show_nat (n div 10) @ [''0123456789'' ! (n mod 10)])"

declare show_nat.simps [simp del]

definition show_int :: "int \<Rightarrow> string" where
  "show_int i = (if i < 0 then CHR ''-'' # show_nat (nat (- i)) else show_nat (nat i))"

text \<open>The result of a signed 64-bit addition, read back as an integer.\<close>

definition wrap64 :: "int \<Rightarrow> int" where
  "wrap64 n = (n + 2 ^ 63) mod 2 ^ 64 - 2 ^ 63"

subsection \<open>The job executor\<close>

text \<open>\<^verbatim>\<open>func (j JobSpec) now()\<close>: the schedule's clock when there is a schedule.\<close>

definition now :: "('t, 'x) os \<Rightarrow> JobSpec \<Rightarrow> 'x \<Rightarrow> int" where
  "now os j x = (case globalSchedule j of Some a \<Rightarrow> sched_now os a x | None \<Rightarrow> wall_clock os x)"

text \<open>
  The loop over \<^verbatim>\<open>j.Command[1:]\<close>: one argument, rendered, or kept as it is when
  \<^verbatim>\<open>Parse\<close> or \<^verbatim>\<open>Execute\<close> returns an error.
\<close>

definition render_param :: "('t, 'x) os \<Rightarrow> (string \<rightharpoonup> string) \<Rightarrow> string \<Rightarrow> string" where
  "render_param os parameters param =
     (case tmpl_parse os param of
        None \<Rightarrow> param
      | Some tmpl \<Rightarrow>
          (case tmpl_execute os tmpl parameters of
             None \<Rightarrow> param
           | Some written \<Rightarrow> written))"

text \<open>
  \<^verbatim>\<open>func (j *JobSpec) execCommand(trigger, parameters)\<close>, from the process on: the
  part after the \<^verbatim>\<open>switch len(j.Command)\<close>, for the argument vector \<open>argv\<close>.
\<close>

definition run_cmd ::
  "('t, 'x) os \<Rightarrow> JobSpec \<Rightarrow> string \<Rightarrow> JobRun \<Rightarrow> string list \<Rightarrow> 'x \<Rightarrow> JobRun \<times> event list \<times> 'x" where
  "run_cmd os j trigger jr argv x =
     (let env = environ os x @ map (\<lambda>(k, v). k @ ''='' @ v) (Env j);
          dir = WorkingDirectory j;
          mirror = (\<lambda>s. if SuppressLogs j then [] else [Stdout s])
      in case start os argv env dir x of
           (StartFailed err, x1) \<Rightarrow>
             (let msg = ''job unable to start: '' @ err
              in (jr\<lparr>logBuf := logBuf jr @ msg\<rparr>,
                  [ProcStart argv env dir]
                  @ (if \<not> SuppressLogs j then [Println err] else [])
                  @ [LogUnableToStart (Name j) trigger (Status jr) err]
                  @ mirror msg,
                  x1))
         | (WaitFailed out err, x1) \<Rightarrow>
             (jr\<lparr>logBuf := logBuf jr @ out\<rparr>, [ProcStart argv env dir] @ mirror out, x1)
         | (Exited out code, x1) \<Rightarrow>
             (if code \<noteq> 0
              then (jr\<lparr>logBuf := logBuf jr @ out, Status := code\<rparr>,
                    [ProcStart argv env dir] @ mirror out @ [LogExitCode (Name j) code],
                    x1)
              else (jr\<lparr>logBuf := logBuf jr @ out,
                       Duration := wall_clock os x1 - TriggeredAt jr,
                       Status := 0\<rparr>,
                    [ProcStart argv env dir] @ mirror out @ [LogExited (Name j) 0],
                    x1)))"

definition execCommand ::
  "('t, 'x) os \<Rightarrow> JobSpec \<Rightarrow> string \<Rightarrow> (string \<rightharpoonup> string) \<Rightarrow> 'x \<Rightarrow> JobRun \<times> event list \<times> 'x" where
  "execCommand os j trigger parameters x =
     (let jr = zeroJobRun\<lparr>RunName := Name j, TriggeredAt := now os j x,
                          TriggeredBy := trigger, Status := - 1, jobRef := Some j\<rparr>
      in case Command j of
           [] \<Rightarrow>
             (let err = ''no command specified'';
                  jr1 = jr\<lparr>Log := ''Job unable to start: '' @ err\<rparr>
              in (jr1,
                  [LogJobTriggered (Name j) trigger, LogNoCommand (Name j) trigger (Log jr1)]
                  @ (if \<not> SuppressLogs j then [Println err] else []),
                  x))
         | [c] \<Rightarrow>
             (case run_cmd os j trigger jr [c] x of
                (jr1, evs, x1) \<Rightarrow> (jr1, LogJobTriggered (Name j) trigger # evs, x1))
         | c # args \<Rightarrow>
             (case run_cmd os j trigger jr (c # map (render_param os parameters) args) x of
                (jr1, evs, x1) \<Rightarrow> (jr1, LogJobTriggered (Name j) trigger # evs, x1)))"

subsection \<open>Finalisation\<close>

text \<open>\<^verbatim>\<open>func (jr *JobRun) flushLogBuffer()\<close>\<close>

definition flushLogBuffer :: "JobRun \<Rightarrow> JobRun" where
  "flushLogBuffer jr = jr\<lparr>Log := logBuf jr\<rparr>"

definition nil_dereference :: panic where
  "nil_dereference = ''invalid memory address or nil pointer dereference''"

text \<open>How a call ended: it returned, it panicked, or it has not returned.\<close>

datatype ending = Done | Panic panic | Cut

text \<open>
  \<^verbatim>\<open>func (j *JobRun) logToDisk()\<close>. \<open>log_file os\<close> is \<^verbatim>\<open>path.Join(CheekPath(), _)\<close>. Both
  failures end in a warning through \<^verbatim>\<open>j.jobRef.log\<close>, which panics on a run without a job.
\<close>

definition logToDisk :: "('t, 'x) os \<Rightarrow> JobRun \<Rightarrow> 'x \<Rightarrow> ending \<times> event list \<times> 'x" where
  "logToDisk os jr x =
     (let logFn = log_file os (RunName jr @ ''.job.jsonl'')
      in case append_log os logFn jr x of
           (OpenFailed err, x1) \<Rightarrow>
             (case jobRef jr of
                None \<Rightarrow> (Panic nil_dereference, [OpenLogFile logFn], x1)
              | Some _ \<Rightarrow> (Done, [OpenLogFile logFn, LogCantOpen (RunName jr) logFn err], x1))
         | (EncodeFailed err, x1) \<Rightarrow>
             (case jobRef jr of
                None \<Rightarrow> (Panic nil_dereference, [OpenLogFile logFn], x1)
              | Some _ \<Rightarrow> (Done, [OpenLogFile logFn, LogCantSave (RunName jr) err], x1))
         | (LogWritten, x1) \<Rightarrow> (Done, [OpenLogFile logFn, AppendLog logFn jr], x1))"

subsection \<open>The event cascade\<close>

text \<open>
  The \<^verbatim>\<open>switch jr.Status == 0\<close> of \<^verbatim>\<open>OnEvent\<close>: the three lists
  \<^verbatim>\<open>jobsToTrigger\<close>, \<^verbatim>\<open>webhooksToCall\<close>, \<^verbatim>\<open>slackWebhooksToCall\<close>.
\<close>

definition select_actions ::
  "(nat \<Rightarrow> Schedule) \<Rightarrow> JobSpec \<Rightarrow> JobRun \<Rightarrow> string list \<times> string list \<times> string list" where
  "select_actions st j jr =
     (if Status jr = 0
      then (case globalSchedule j of
              None \<Rightarrow> (TriggerJob (OnSuccess j), NotifyWebhook (OnSuccess j),
                        NotifySlackWebhook (OnSuccess j))
            | Some a \<Rightarrow>
                (TriggerJob (OnSuccess j) @ TriggerJob (SchedOnSuccess (st a)),
                 NotifyWebhook (OnSuccess j) @ NotifyWebhook (SchedOnSuccess (st a)),
                 NotifySlackWebhook (OnSuccess j) @ NotifySlackWebhook (SchedOnSuccess (st a))))
      else (case globalSchedule j of
              None \<Rightarrow> (TriggerJob (OnError j), NotifyWebhook (OnError j),
                        NotifySlackWebhook (OnError j))
            | Some a \<Rightarrow>
                (TriggerJob (OnError j) @ TriggerJob (SchedOnError (st a)),
                 NotifyWebhook (OnError j) @ NotifyWebhook (SchedOnError (st a)),
                 NotifySlackWebhook (OnError j) @ NotifySlackWebhook (SchedOnError (st a)))))"

text \<open>
  \<^verbatim>\<open>for _, tn := range jobsToTrigger\<close>. \<open>run\<close> stands for the method
  \<^verbatim>\<open>execCommandWithRetry\<close> that the goroutine calls. \<^verbatim>\<open>j.globalSchedule.Jobs[tn]\<close> panics
  on a job without a schedule, and the goroutine panics, before it has done anything, on
  the \<^verbatim>\<open>nil\<close> that the lookup of an unknown name gives. A goroutine that panics or does
  not return ends the loop in the same way.
\<close>

fun trigger_jobs ::
  "(JobSpec \<Rightarrow> string \<Rightarrow> (string \<rightharpoonup> string) \<Rightarrow> 'x \<Rightarrow> ending \<times> JobRun \<times> event list \<times> 'x)
   \<Rightarrow> (nat \<Rightarrow> Schedule) \<Rightarrow> JobSpec \<Rightarrow> string list \<Rightarrow> 'x \<Rightarrow> ending \<times> event list \<times> 'x" where
  "trigger_jobs run st j [] x = (Done, [], x)"
| "trigger_jobs run st j (tn # tns) x =
     (case globalSchedule j of
        None \<Rightarrow> (Panic nil_dereference, [], x)
      | Some a \<Rightarrow>
          (case Jobs (st a) tn of
             None \<Rightarrow>
               (Panic nil_dereference,
                [LogOnEvent (Name j) ''job_trigger'',
                 GoJob tn (''job['' @ Name j @ '']'') Map.empty []], x)
           | Some tj \<Rightarrow>
               (case run tj (''job['' @ Name j @ '']'') Map.empty x of
                  (e, jr, evs, x1) \<Rightarrow>
                    (case e of
                       Done \<Rightarrow>
                         (case trigger_jobs run st j tns x1 of
                            (e', evs', x2) \<Rightarrow>
                              (e', LogOnEvent (Name j) ''job_trigger''
                                   # GoJob tn (''job['' @ Name j @ '']'') Map.empty evs
                                   # evs', x2))
                     | _ \<Rightarrow>
                         (e, [LogOnEvent (Name j) ''job_trigger'',
                              GoJob tn (''job['' @ Name j @ '']'') Map.empty evs], x1)))))"

text \<open>
  The two webhook loops; \<open>kind\<close> is \<^verbatim>\<open>"generic"\<close> or \<^verbatim>\<open>"slack"\<close>, \<open>label\<close> the
  \<^verbatim>\<open>on_event\<close> field of the debug line. \<open>webhook_call\<close> gives the pair
  \<^verbatim>\<open>resp_body, err\<close> that \<^verbatim>\<open>JobRunWebhookCall\<close> returns.
\<close>

fun call_webhooks ::
  "('t, 'x) os \<Rightarrow> JobSpec \<Rightarrow> JobRun \<Rightarrow> string \<Rightarrow> string \<Rightarrow> string list \<Rightarrow> 'x \<Rightarrow> event list \<times> 'x" where
  "call_webhooks os j jr kind label [] x = ([], x)"
| "call_webhooks os j jr kind label (wu # wus) x =
     (case webhook_call os jr wu kind x of
        ((resp_body, err), x1) \<Rightarrow>
          (case call_webhooks os j jr kind label wus x1 of
             (evs', x2) \<Rightarrow>
               (LogOnEvent (Name j) label
                # GoWebhook wu kind
                    ((case err of None \<Rightarrow> [] | Some e \<Rightarrow> [LogWebhookFailed (Name j) e])
                     @ [LogWebhookResponse (RunName jr) wu resp_body])
                # evs', x2)))"

text \<open>\<^verbatim>\<open>func (j *JobSpec) OnEvent(jr *JobRun)\<close>; it returns when \<^verbatim>\<open>wg.Wait()\<close> does.\<close>

definition OnEvent ::
  "('t, 'x) os \<Rightarrow> (nat \<Rightarrow> Schedule)
   \<Rightarrow> (JobSpec \<Rightarrow> string \<Rightarrow> (string \<rightharpoonup> string) \<Rightarrow> 'x \<Rightarrow> ending \<times> JobRun \<times> event list \<times> 'x)
   \<Rightarrow> JobSpec \<Rightarrow> JobRun \<Rightarrow> 'x \<Rightarrow> ending \<times> event list \<times> 'x" where
  "OnEvent os st run j jr x =
     (case select_actions st j jr of
        (jobsToTrigger, webhooksToCall, slackWebhooksToCall) \<Rightarrow>
          (case trigger_jobs run st j jobsToTrigger x of
             (e, e1, x1) \<Rightarrow>
               (case e of
                  Done \<Rightarrow>
                    (case call_webhooks os j jr ''generic'' ''webhook_call'' webhooksToCall x1 of
                       (e2, x2) \<Rightarrow>
                         (case call_webhooks os j jr ''slack'' ''slack_webhook_call''
                                 slackWebhooksToCall x2 of
                            (e3, x3) \<Rightarrow> (Done, e1 @ e2 @ e3, x3)))
                | _ \<Rightarrow> (e, e1, x1))))"

text \<open>
  \<^verbatim>\<open>func (j *JobSpec) finalize(jr *JobRun)\<close>; the run is given back as
  \<^verbatim>\<open>flushLogBuffer\<close> left it behind the pointer.
\<close>

definition finalize ::
  "('t, 'x) os \<Rightarrow> (nat \<Rightarrow> Schedule)
   \<Rightarrow> (JobSpec \<Rightarrow> string \<Rightarrow> (string \<rightharpoonup> string) \<Rightarrow> 'x \<Rightarrow> ending \<times> JobRun \<times> event list \<times> 'x)
   \<Rightarrow> JobSpec \<Rightarrow> JobRun \<Rightarrow> 'x \<Rightarrow> ending \<times> JobRun \<times> event list \<times> 'x" where
  "finalize os st run j jr x =
     (let jr1 = flushLogBuffer jr
      in case logToDisk os jr1 x of
           (e, e1, x1) \<Rightarrow>
             (case e of
                Done \<Rightarrow>
                  (case OnEvent os st run j jr1 x1 of
                     (e', e2, x2) \<Rightarrow> (e', jr1, e1 @ e2, x2))
              | _ \<Rightarrow> (e, jr1, e1, x1)))"

subsection \<open>The retry controller\<close>

text \<open>\<^verbatim>\<open>const timeOut = 5 * time.Second\<close>\<close>

definition timeOut :: int where
  "timeOut = 5 * 1000000000"

text \<open>The trigger descriptor of the attempt numbered \<open>tries\<close> (the \<^verbatim>\<open>switch\<close> of the loop).\<close>

definition attempt_trigger :: "string \<Rightarrow> int \<Rightarrow> string" where
  "attempt_trigger trigger tries =
     (if tries = 0 then trigger else trigger @ ''[retry='' @ show_int tries @ '']'')"

text \<open>
  \<^verbatim>\<open>for tries < j.Retries+1 { ... }\<close>, from a state of the loop: the counter, the run in
  \<^verbatim>\<open>jr\<close>, the events so far. \<open>fin\<close> stands for \<^verbatim>\<open>j.finalize\<close>. The counter cannot
  overflow: it is below the bound when it is incremented. A finalisation that panics or
  does not return ends the loop in the same way.
\<close>

function retry_loop ::
  "('t, 'x) os \<Rightarrow> (JobSpec \<Rightarrow> JobRun \<Rightarrow> 'x \<Rightarrow> ending \<times> JobRun \<times> event list \<times> 'x)
   \<Rightarrow> JobSpec \<Rightarrow> string \<Rightarrow> (string \<rightharpoonup> string) \<Rightarrow> int \<Rightarrow> JobRun \<Rightarrow> event list \<Rightarrow> 'x
   \<Rightarrow> ending \<times> JobRun \<times> event list \<times> 'x" where
  "retry_loop os fin j trigger parameters tries jr evs x =
     (if tries < wrap64 (Retries j + 1)
      then (case execCommand os j (attempt_trigger trigger tries) parameters x of
              (jr1, e1, x1) \<Rightarrow>
                (case fin j jr1 x1 of
                   (e, jr2, e2, x2) \<Rightarrow>
                     (case e of
                        Done \<Rightarrow>
                          if Status jr2 = 0
                          then (Done, jr2, evs @ e1 @ e2, x2)
                          else retry_loop os fin j trigger parameters (tries + 1) jr2
                                 (evs @ e1 @ e2 @ [LogRetry (Name j) (Status jr2), Sleep timeOut])
                                 (sleep os timeOut x2)
                      | _ \<Rightarrow> (e, jr2, evs @ e1 @ e2, x2))))
      else (Done, jr, evs, x))"
  by pat_completeness auto
termination
  by (relation "measure (\<lambda>(os, fin, j, trigger, parameters, tries, jr, evs, x).
                   nat (wrap64 (Retries j + 1) - tries))") auto

declare retry_loop.simps [simp del]

text \<open>
  \<^verbatim>\<open>func (j *JobSpec) execCommandWithRetry(trigger, parameters)\<close>. The first argument
  bounds the depth of the cascade: the call made by a goroutine of \<^verbatim>\<open>OnEvent\<close> has one
  less, and a call with none left has not returned.
\<close>

primrec execCommandWithRetry ::
  "nat \<Rightarrow> ('t, 'x) os \<Rightarrow> (nat \<Rightarrow> Schedule) \<Rightarrow> JobSpec \<Rightarrow> string \<Rightarrow> (string \<rightharpoonup> string) \<Rightarrow> 'x
   \<Rightarrow> ending \<times> JobRun \<times> event list \<times> 'x" where
  "execCommandWithRetry 0 os st j trigger parameters x = (Cut, zeroJobRun, [], x)"
| "execCommandWithRetry (Suc depth) os st j trigger parameters x =
     retry_loop os (finalize os st (execCommandWithRetry depth os st))
       j trigger parameters 0 zeroJobRun [] x"

subsection \<open>Loading a schedule\<close>

definition quoted :: "string \<Rightarrow> string" where
  "quoted s = [CHR 0x27] @ s @ [CHR 0x27]"

text \<open>
  \<^verbatim>\<open>func (s *Schedule) Validate() error\<close>: the loop \<^verbatim>\<open>for k, v := range s.Jobs\<close>, over
  the keys in the order \<open>ks\<close> in which the map is visited. \<open>a\<close> is the address of
  \<^verbatim>\<open>s\<close>. The result is the error (\<open>None\<close> is \<^verbatim>\<open>nil\<close>) and the schedule as the loop
  left it: a job is updated through its pointer once its checks have passed.
\<close>

fun Validate ::
  "('t, 'x) os \<Rightarrow> nat \<Rightarrow> string list \<Rightarrow> Schedule \<Rightarrow> string option \<times> Schedule" where
  "Validate os a [] s = (None, s)"
| "Validate os a (k # ks) s =
     (case Jobs s k of
        None \<Rightarrow> Validate os a ks s
      | Some v \<Rightarrow>
          if Cron v \<noteq> [] \<and> \<not> cron_valid os (Cron v)
          then (Some (''cron string for job '' @ quoted k @ '' not valid''), s)
          else (case find (\<lambda>t. Jobs s t = None)
                       (TriggerJob (OnSuccess v) @ TriggerJob (OnError v)) of
                  Some t \<Rightarrow>
                    (Some (''cannot find spec of job '' @ quoted t
                           @ '' that is referenced in job '' @ quoted k), s)
                | None \<Rightarrow>
                    Validate os a ks
                      (s\<lparr>Jobs := (Jobs s)(k \<mapsto> v\<lparr>Name := k, globalSchedule := Some a\<rparr>)\<rparr>)))"

text \<open>
  \<^verbatim>\<open>func loadSchedule(log, fn) (Schedule, error)\<close>. \<open>specs\<close> is what \<^verbatim>\<open>readSpecs(fn)\<close>
  returned: an error or the parsed schedule. The result is the pair that the function
  returns.
\<close>

definition loadSchedule ::
  "('t, 'x) os \<Rightarrow> nat \<Rightarrow> string list \<Rightarrow> string + Schedule \<Rightarrow> Schedule \<times> string option" where
  "loadSchedule os a ks specs =
     (case specs of
        Inl err \<Rightarrow> (zeroSchedule, Some err)
      | Inr s \<Rightarrow>
          (case Validate os a ks s of
             (Some err, s') \<Rightarrow> (zeroSchedule, None)
           | (None, s') \<Rightarrow> (s', None)))"

text \<open>
  \<^verbatim>\<open>func RunSchedule(log, fn, suppressLogs)\<close>: the process exits with code 1, or the
  server and the engine (\<^verbatim>\<open>s.Run\<close>) are started on the schedule.
\<close>

datatype startup = ExitProcess int | EngineStarted Schedule

definition RunSchedule ::
  "('t, 'x) os \<Rightarrow> nat \<Rightarrow> string list \<Rightarrow> string + Schedule \<Rightarrow> startup" where
  "RunSchedule os a ks specs =
     (case loadSchedule os a ks specs of
        (s, Some err) \<Rightarrow> ExitProcess 1
      | (s, None) \<Rightarrow> EngineStarted s)"

subsection \<open>A fragment of the template library\<close>

text \<open>
  The part of Go's \<^verbatim>\<open>text/template\<close> that the examples below run, written after the
  library's documentation. Inside the fragment a template is text with actions
  \<^verbatim>\<open>{{.name}}\<close>, where spaces and tabs may stand around \<^verbatim>\<open>.name\<close>; an action that is
  never closed is a parse error; on a map, a field whose key is missing is not an error
  under the default option (\<^verbatim>\<open>missingkey=default\<close>) and prints \<^verbatim>\<open><no value>\<close>. A
  template with any other action is outside the fragment: nothing is said of it, the
  value of \<open>go_parse\<close> there is left unspecified.
\<close>

datatype tnode = TText string | TField string

datatype scanned = Nodes "tnode list" | Unclosed | Outside

definition ident_char :: "char \<Rightarrow> bool" where
  "ident_char c = (c \<in> set ''abcdefghijklmnopqrstuvwxyzABCDEFGHIJKLMNOPQRSTUVWXYZ_0123456789'')"

definition blank :: "char \<Rightarrow> bool" where
  "blank c = (c = CHR '' '' \<or> c = CHR 0x09)"

definition trim :: "string \<Rightarrow> string" where
  "trim s = rev (dropWhile blank (rev (dropWhile blank s)))"

definition field_name :: "string \<Rightarrow> string option" where
  "field_name body =
     (case trim body of
        c # cs \<Rightarrow>
          if c = CHR ''.'' \<and> cs \<noteq> [] \<and> list_all ident_char cs
             \<and> hd cs \<notin> set ''0123456789''
          then Some cs else None
      | [] \<Rightarrow> None)"

fun cons_node :: "tnode \<Rightarrow> scanned \<Rightarrow> scanned" where
  "cons_node n (Nodes ns) = Nodes (n # ns)"
| "cons_node n Unclosed = Unclosed"
| "cons_node n Outside = Outside"

text \<open>\<open>in_action\<close> says whether the scan is between \<^verbatim>\<open>{{\<close> and \<^verbatim>\<open>}}\<close>; \<open>acc\<close> is the
  text or the action body read so far, reversed.\<close>

fun go_scan :: "bool \<Rightarrow> string \<Rightarrow> string \<Rightarrow> scanned" where
  "go_scan in_action acc [] = (if in_action then Unclosed else Nodes [TText (rev acc)])"
| "go_scan in_action acc [c] = (if in_action then Unclosed else Nodes [TText (rev (c # acc))])"
| "go_scan in_action acc (c # d # cs) =
     (if \<not> in_action \<and> c = CHR ''{'' \<and> d = CHR ''{''
      then cons_node (TText (rev acc)) (go_scan True [] cs)
      else if in_action \<and> c = CHR ''}'' \<and> d = CHR ''}''
      then (case field_name (rev acc) of
              None \<Rightarrow> Outside
            | Some f \<Rightarrow> cons_node (TField f) (go_scan False [] cs))
      else go_scan in_action (c # acc) (d # cs))"

definition go_parse :: "string \<Rightarrow> tnode list option" where
  "go_parse src =
     (case go_scan False [] src of
        Nodes ns \<Rightarrow> Some ns
      | Unclosed \<Rightarrow> None
      | Outside \<Rightarrow> undefined)"

definition go_execute :: "tnode list \<Rightarrow> (string \<rightharpoonup> string) \<Rightarrow> string option" where
  "go_execute tmpl data =
     Some (concat (map (\<lambda>n. case n of
                              TText s \<Rightarrow> s
                            | TField f \<Rightarrow> (case data f of None \<Rightarrow> ''<no value>'' | Some v \<Rightarrow> v))
                       tmpl))"

subsection \<open>Reading the events\<close>

text \<open>A value of Go's \<^verbatim>\<open>int\<close>.\<close>

definition is_int64 :: "int \<Rightarrow> bool" where
  "is_int64 n = (- (2 ^ 63) \<le> n \<and> n < 2 ^ 63)"

text \<open>
  The events that mark the course of the retry loop: an attempt begins (with its trigger
  descriptor), an attempt has ended with status 0, a finalisation has reached the job log
  (\<^verbatim>\<open>logToDisk\<close> opens it), the cascade of a finalisation starts a goroutine for a
  dependent job (name and trigger) or for a webhook (url and kind), the backoff delay is
  taken. The events inside a goroutine node are not looked at: they belong to the
  dependent job.
\<close>

datatype milestone =
    MAttempt string
  | MSuccess
  | MPersist
  | MDispatch string string
  | MNotify string string
  | MSleep

fun milestone_of :: "event \<Rightarrow> milestone list" where
  "milestone_of (LogJobTriggered job trigger) = [MAttempt trigger]"
| "milestone_of (LogExited job status) = [MSuccess]"
| "milestone_of (OpenLogFile file) = [MPersist]"
| "milestone_of (GoJob tn trigger parameters sub) = [MDispatch tn trigger]"
| "milestone_of (GoWebhook url kind sub) = [MNotify url kind]"
| "milestone_of (Sleep d) = [MSleep]"
| "milestone_of e = []"

definition milestones :: "event list \<Rightarrow> milestone list" where
  "milestones evs = concat (map milestone_of evs)"

fun is_cascade_mark :: "milestone \<Rightarrow> bool" where
  "is_cascade_mark (MDispatch tn trigger) = True"
| "is_cascade_mark (MNotify url kind) = True"
| "is_cascade_mark m = False"

text \<open>
  The action lists of an outcome, in the words of the specification: \<^verbatim>\<open>on_success\<close> for a
  success (\<open>ok\<close>), \<^verbatim>\<open>on_error\<close> for anything else, taken from the job's own spec and from
  the schedule's global default, the local entries first and the global entries appended.
\<close>

definition actions_for :: "(nat \<Rightarrow> Schedule) \<Rightarrow> JobSpec \<Rightarrow> bool \<Rightarrow> OnEvent" where
  "actions_for st j ok =
     (let loc = (if ok then OnSuccess j else OnError j);
          glob = (case globalSchedule j of
                    None \<Rightarrow> emptyOnEvent
                  | Some a \<Rightarrow> if ok then SchedOnSuccess (st a) else SchedOnError (st a))
      in \<lparr>TriggerJob = TriggerJob loc @ TriggerJob glob,
          NotifyWebhook = NotifyWebhook loc @ NotifyWebhook glob,
          NotifySlackWebhook = NotifySlackWebhook loc @ NotifySlackWebhook glob\<rparr>)"

text \<open>
  The milestones of a cascade that dispatches every entry of the lists \<open>acts\<close> for job
  \<open>j\<close>: the dependent jobs with the descriptor \<^verbatim>\<open>job[<parent-name>]\<close>, then the generic
  webhooks, then the chat webhooks.
\<close>

definition cascade_marks :: "JobSpec \<Rightarrow> OnEvent \<Rightarrow> milestone list" where
  "cascade_marks j acts =
     map (\<lambda>tn. MDispatch tn (''job['' @ Name j @ '']'')) (TriggerJob acts)
     @ map (\<lambda>u. MNotify u ''generic'') (NotifyWebhook acts)
     @ map (\<lambda>u. MNotify u ''slack'') (NotifySlackWebhook acts)"

text \<open>
  The milestones of \<open>m\<close> failed attempts in a row, the first numbered \<open>tries\<close>: each
  is the attempt, its finalisation (the job log, then the whole cascade for an error) and
  the backoff delay.
\<close>

fun fail_blocks :: "(nat \<Rightarrow> Schedule) \<Rightarrow> JobSpec \<Rightarrow> string \<Rightarrow> int \<Rightarrow> nat \<Rightarrow> milestone list" where
  "fail_blocks st j trigger tries 0 = []"
| "fail_blocks st j trigger tries (Suc m) =
     [MAttempt (attempt_trigger trigger tries), MPersist]
     @ cascade_marks j (actions_for st j False)
     @ [MSleep]
     @ fail_blocks st j trigger (tries + 1) m"

text \<open>
  The courses that the loop of \<^verbatim>\<open>execCommandWithRetry\<close> can take from the counter
  \<open>tries\<close>, the run \<open>jr\<close> and the state \<open>x\<close>, told by how it ends (\<open>e\<close>), the
  run it leaves (\<open>jr'\<close>), the events it adds (\<open>new\<close>) and the state it leaves (\<open>x'\<close>):
  it makes no attempt; or it makes \<open>m\<close> failed attempts and then one that succeeds, whose
  finalisation is the last thing it does; or all its attempts fail, the last one being
  the one numbered \<^verbatim>\<open>j.Retries\<close>; or it makes \<open>m\<close> failed attempts and then one more
  that fails and whose finalisation does not return.
\<close>

definition retry_course ::
  "('t, 'x) os \<Rightarrow> (nat \<Rightarrow> Schedule)
   \<Rightarrow> (JobSpec \<Rightarrow> string \<Rightarrow> (string \<rightharpoonup> string) \<Rightarrow> 'x \<Rightarrow> ending \<times> JobRun \<times> event list \<times> 'x)
   \<Rightarrow> JobSpec \<Rightarrow> string \<Rightarrow> (string \<rightharpoonup> string) \<Rightarrow> int \<Rightarrow> JobRun \<Rightarrow> 'x
   \<Rightarrow> ending \<Rightarrow> JobRun \<Rightarrow> event list \<Rightarrow> 'x \<Rightarrow> bool" where
  "retry_course os st run j trigger ps tries jr x e jr' new x' =
     ((\<not> tries < wrap64 (Retries j + 1) \<and> new = [] \<and> jr' = jr \<and> x' = x \<and> e = Done) \<or>
      (\<exists>m x0 x1 e2 c.
          tries + int m < wrap64 (Retries j + 1) \<and> Status jr' = 0 \<and>
          finalize os st run j
            (fst (execCommand os j (attempt_trigger trigger (tries + int m)) ps x0)) x1
            = (e, jr', e2, x') \<and>
          milestones new = fail_blocks st j trigger tries m
             @ [MAttempt (attempt_trigger trigger (tries + int m)), MSuccess, MPersist] @ c \<and>
          list_all is_cascade_mark c \<and>
          (e = Done \<longrightarrow> c = cascade_marks j (actions_for st j True))) \<or>
      (\<exists>m x0 x1 e2 x2.
          tries + int m + 1 = wrap64 (Retries j + 1) \<and> Status jr' \<noteq> 0 \<and> e = Done \<and>
          finalize os st run j
            (fst (execCommand os j (attempt_trigger trigger (tries + int m)) ps x0)) x1
            = (Done, jr', e2, x2) \<and>
          milestones new = fail_blocks st j trigger tries (Suc m)) \<or>
      (\<exists>m x0 x1 e2 c.
          tries + int m < wrap64 (Retries j + 1) \<and> Status jr' \<noteq> 0 \<and> e \<noteq> Done \<and>
          finalize os st run j
            (fst (execCommand os j (attempt_trigger trigger (tries + int m)) ps x0)) x1
            = (e, jr', e2, x') \<and>
          milestones new = fail_blocks st j trigger tries m
             @ [MAttempt (attempt_trigger trigger (tries + int m)), MPersist] @ c \<and>
          list_all is_cascade_mark c))"

text \<open>The trigger descriptors of the attempts, in order.\<close>

fun attempts_of :: "milestone list \<Rightarrow> string list" where
  "attempts_of [] = []"
| "attempts_of (MAttempt trigger # ms) = trigger # attempts_of ms"
| "attempts_of (m # ms) = attempts_of ms"

text \<open>The argument vectors of the processes started.\<close>

fun started_argv :: "event list \<Rightarrow> string list list" where
  "started_argv [] = []"
| "started_argv (ProcStart argv env dir # evs) = argv # started_argv evs"
| "started_argv (e # evs) = started_argv evs"

text \<open>The goroutines started for dependent jobs: name looked up, trigger, parameters.\<close>

fun dispatched :: "event list \<Rightarrow> (string \<times> string \<times> (string \<rightharpoonup> string)) list" where
  "dispatched [] = []"
| "dispatched (GoJob tn trigger parameters sub # evs) = (tn, trigger, parameters) # dispatched evs"
| "dispatched (e # evs) = dispatched evs"

text \<open>The goroutines started for webhooks: url and payload kind.\<close>

fun notified :: "event list \<Rightarrow> (string \<times> string) list" where
  "notified [] = []"
| "notified (GoWebhook url kind sub # evs) = (url, kind) # notified evs"
| "notified (e # evs) = notified evs"

subsection \<open>Example surroundings, jobs and schedules\<close>

text \<open>
  Surroundings whose state is the wall clock: a process takes 1000 ns and ends as
  \<open>proc\<close> says for its argument vector and the time at which it starts, the job log
  answers \<open>logres\<close>, templates are
  those of the fragment above, webhooks answer \<^verbatim>\<open>ok\<close>, and the one cron expression
  taken as valid is \<^verbatim>\<open>* * * * *\<close>.
\<close>

definition example_os ::
  "(string list \<Rightarrow> int \<Rightarrow> proc_outcome) \<Rightarrow> log_outcome \<Rightarrow> (tnode list, int) os" where
  "example_os proc logres =
     \<lparr>start = (\<lambda>argv env dir x. (proc argv x, x + 1000)),
      environ = (\<lambda>x. []),
      wall_clock = (\<lambda>x. x),
      sched_now = (\<lambda>a x. x),
      sleep = (\<lambda>d x. x + d),
      log_file = (\<lambda>n. ''/var/cheek/'' @ n),
      append_log = (\<lambda>fn jr x. (logres, x)),
      webhook_call = (\<lambda>jr url kind x. ((''ok'', None), x)),
      tmpl_parse = go_parse,
      tmpl_execute = go_execute,
      cron_valid = (\<lambda>c. c = ''* * * * *'')\<rparr>"

text \<open>\<^verbatim>\<open>false\<close> exits with 1, a missing executable does not start, \<^verbatim>\<open>flaky\<close> exits
  with 1 during the first five seconds and with 0 later, the rest prints its arguments
  and exits with 0.\<close>

definition example_proc :: "string list \<Rightarrow> int \<Rightarrow> proc_outcome" where
  "example_proc argv x =
     (if argv = [''false''] then Exited [] 1
      else if argv = [''missing''] then StartFailed ''executable file not found''
      else if argv = [''flaky''] then (if x < 5000000000 then Exited [] 1 else Exited ''ok'' 0)
      else Exited (concat (tl argv)) 0)"

definition example_job :: "string \<Rightarrow> string list \<Rightarrow> int \<Rightarrow> JobSpec" where
  "example_job name cmd retries =
     \<lparr>Cron = [], Command = cmd, Params = Map.empty, OnSuccess = emptyOnEvent,
      OnError = emptyOnEvent, Name = name, Retries = retries, Env = [],
      WorkingDirectory = [], globalSchedule = None, SuppressLogs = True\<rparr>"

text \<open>A store without jobs.\<close>

definition no_schedule :: "nat \<Rightarrow> Schedule" where
  "no_schedule = (\<lambda>a. zeroSchedule)"

text \<open>
  A schedule at address 0: job \<^verbatim>\<open>a\<close> triggers \<^verbatim>\<open>b\<close> on success and calls a webhook,
  every job triggers \<^verbatim>\<open>report\<close> on error.
\<close>

definition chain_job :: "string \<Rightarrow> string list \<Rightarrow> OnEvent \<Rightarrow> JobSpec" where
  "chain_job name cmd on_success =
     (example_job name cmd 0)\<lparr>OnSuccess := on_success, globalSchedule := Some 0\<rparr>"

definition job_a :: JobSpec where
  "job_a = chain_job ''a'' [''echo'', ''a'']
             \<lparr>TriggerJob = [''b''], NotifyWebhook = [''http://hook''],
              NotifySlackWebhook = []\<rparr>"

definition chain_schedule :: Schedule where
  "chain_schedule =
     \<lparr>Jobs = [''a'' \<mapsto> job_a,
             ''b'' \<mapsto> chain_job ''b'' [''echo'', ''b''] emptyOnEvent,
             ''report'' \<mapsto> chain_job ''report'' [''echo'', ''failed''] emptyOnEvent],
      SchedOnSuccess = emptyOnEvent,
      SchedOnError = \<lparr>TriggerJob = [''report''], NotifyWebhook = [],
                      NotifySlackWebhook = []\<rparr>\<rparr>"

definition chain_store :: "nat \<Rightarrow> Schedule" where
  "chain_store = (\<lambda>a. chain_schedule)"

text \<open>A job of that schedule whose command always fails, with two retries, and one whose
  command fails once and then succeeds, with three retries and a dependent job.\<close>

definition job_f :: JobSpec where
  "job_f = (chain_job ''f'' [''false''] emptyOnEvent)\<lparr>Retries := 2\<rparr>"

definition job_g :: JobSpec where
  "job_g = (chain_job ''g'' [''flaky'']
              \<lparr>TriggerJob = [''b''], NotifyWebhook = [], NotifySlackWebhook = []\<rparr>)
           \<lparr>Retries := 3\<rparr>"

text \<open>A job without a schedule that names a dependent job: its cascade panics.\<close>

definition job_p :: JobSpec where
  "job_p = (example_job ''p'' [''echo'', ''hi''] 0)
             \<lparr>OnSuccess := \<lparr>TriggerJob = [''b''], NotifyWebhook = [],
                            NotifySlackWebhook = []\<rparr>\<rparr>"

text \<open>A run of job \<^verbatim>\<open>a\<close> that has ended with the given status, before its finalisation.\<close>

definition run_a :: "int \<Rightarrow> JobRun" where
  "run_a status = zeroJobRun\<lparr>RunName := ''a'', TriggeredBy := ''cron'', Status := status,
                              logBuf := ''a'', jobRef := Some job_a\<rparr>"

text \<open>A parsed schedule file in which job \<^verbatim>\<open>a\<close> names a job \<^verbatim>\<open>b\<close> that does not exist,
  and one in which the cron expression of job \<^verbatim>\<open>a\<close> is not valid.\<close>

definition dangling_schedule :: Schedule where
  "dangling_schedule =
     \<lparr>Jobs = [''a'' \<mapsto> (example_job [] [''echo''] 0)
                        \<lparr>OnSuccess := \<lparr>TriggerJob = [''b''], NotifyWebhook = [],
                                       NotifySlackWebhook = []\<rparr>\<rparr>],
      SchedOnSuccess = emptyOnEvent, SchedOnError = emptyOnEvent\<rparr>"

definition bad_cron_schedule :: Schedule where
  "bad_cron_schedule =
     \<lparr>Jobs = [''a'' \<mapsto> (example_job [] [''echo''] 0)\<lparr>Cron := ''every day''\<rparr>],
      SchedOnSuccess = emptyOnEvent, SchedOnError = emptyOnEvent\<rparr>"

section \<open>Properties\<close>

subsection \<open>The milestones of one attempt and of one finalisation\<close>

lemma milestones_simps [simp]:
  "milestones [] = []"
  "milestones (e # evs) = milestone_of e @ milestones evs"
  "milestones (xs @ ys) = milestones xs @ milestones ys"
  by (simp_all add: milestones_def)

lemma run_cmd_milestones:
  "run_cmd os j trigger jr argv x = (jr1, evs, x1) \<Longrightarrow> Status jr \<noteq> 0 \<Longrightarrow>
   milestones evs = (if Status jr1 = 0 then [MSuccess] else [])"
  by (auto simp: run_cmd_def Let_def split: prod.splits proc_outcome.splits if_splits)

lemma execCommand_milestones:
  "execCommand os j trigger parameters x = (jr1, evs, x1) \<Longrightarrow>
   milestones evs = MAttempt trigger # (if Status jr1 = 0 then [MSuccess] else [])"
  unfolding execCommand_def Let_def
  by (auto split: list.splits prod.splits dest!: run_cmd_milestones simp: zeroJobRun_def)

lemma trigger_jobs_milestones:
  "trigger_jobs run st j tns x = (e, evs, x') \<Longrightarrow>
     list_all is_cascade_mark (milestones evs) \<and>
     (e = Done \<longrightarrow> milestones evs = map (\<lambda>tn. MDispatch tn (''job['' @ Name j @ '']'')) tns)"
proof (induction tns arbitrary: x e evs x')
  case Nil
  then show ?case by simp
next
  case (Cons tn tns)
  show ?case
  proof (cases "globalSchedule j")
    case None
    with Cons.prems show ?thesis by auto
  next
    case (Some a)
    show ?thesis
    proof (cases "Jobs (st a) tn")
      case None
      with Some Cons.prems show ?thesis by auto
    next
      case tj: (Some tj)
      obtain e1 jr sub x1 where r: "run tj (''job['' @ Name j @ '']'') Map.empty x = (e1, jr, sub, x1)"
        by (cases "run tj (''job['' @ Name j @ '']'') Map.empty x") auto
      show ?thesis
      proof (cases "e1 = Done")
        case False
        with Some tj r Cons.prems show ?thesis
          by (cases e1) auto
      next
        case True
        obtain e2 evs2 x2 where t: "trigger_jobs run st j tns x1 = (e2, evs2, x2)"
          by (cases "trigger_jobs run st j tns x1") auto
        from Cons.IH [OF t] Some tj r True t Cons.prems show ?thesis
          by auto
      qed
    qed
  qed
qed

lemma call_webhooks_milestones:
  "call_webhooks os j jr kind label wus x = (evs, x') \<Longrightarrow>
     milestones evs = map (\<lambda>u. MNotify u kind) wus"
  by (induction wus arbitrary: x evs x') (auto split: prod.splits)

lemma select_actions_for:
  "select_actions st j jr =
     (TriggerJob (actions_for st j (Status jr = 0)),
      NotifyWebhook (actions_for st j (Status jr = 0)),
      NotifySlackWebhook (actions_for st j (Status jr = 0)))"
  by (simp add: select_actions_def actions_for_def emptyOnEvent_def Let_def split: option.splits)

lemma list_all_cascade_map [simp]:
  "list_all is_cascade_mark (map (\<lambda>tn. MDispatch tn t) xs)"
  "list_all is_cascade_mark (map (\<lambda>u. MNotify u k) ys)"
  by (simp_all add: list_all_iff)

lemma cascade_marks_all: "list_all is_cascade_mark (cascade_marks j acts)"
  by (simp add: cascade_marks_def)

lemma OnEvent_milestones:
  assumes "OnEvent os st run j jr x = (e, evs, x')"
  shows "list_all is_cascade_mark (milestones evs) \<and>
         (e = Done \<longrightarrow> milestones evs = cascade_marks j (actions_for st j (Status jr = 0)))"
proof -
  let ?A = "actions_for st j (Status jr = 0)"
  obtain e1 evs1 x1 where t: "trigger_jobs run st j (TriggerJob ?A) x = (e1, evs1, x1)"
    by (cases "trigger_jobs run st j (TriggerJob ?A) x") auto
  note tm = trigger_jobs_milestones [OF t]
  show ?thesis
  proof (cases "e1 = Done")
    case False
    then have "OnEvent os st run j jr x = (e1, evs1, x1)"
      using t by (cases e1) (simp_all add: OnEvent_def select_actions_for)
    with assms tm False show ?thesis by auto
  next
    case True
    obtain e2 x2 where w2: "call_webhooks os j jr ''generic'' ''webhook_call'' (NotifyWebhook ?A) x1 = (e2, x2)"
      by (cases "call_webhooks os j jr ''generic'' ''webhook_call'' (NotifyWebhook ?A) x1") auto
    obtain e3 x3 where w3: "call_webhooks os j jr ''slack'' ''slack_webhook_call'' (NotifySlackWebhook ?A) x2 = (e3, x3)"
      by (cases "call_webhooks os j jr ''slack'' ''slack_webhook_call'' (NotifySlackWebhook ?A) x2") auto
    have "OnEvent os st run j jr x = (Done, evs1 @ e2 @ e3, x3)"
      using t True w2 w3 by (simp add: OnEvent_def select_actions_for)
    with assms have "e = Done" "evs = evs1 @ e2 @ e3" by simp_all
    moreover have "milestones (evs1 @ e2 @ e3) = cascade_marks j ?A"
      using tm True call_webhooks_milestones [OF w2] call_webhooks_milestones [OF w3]
      by (simp add: cascade_marks_def)
    ultimately show ?thesis
      using cascade_marks_all [of j ?A] by simp
  qed
qed

lemma logToDisk_milestones:
  "logToDisk os jr x = (e, evs, x') \<Longrightarrow> milestones evs = [MPersist]"
  unfolding logToDisk_def Let_def
  by (auto split: option.splits prod.splits log_outcome.splits)

lemma logToDisk_Done:
  "jobRef jr \<noteq> None \<Longrightarrow> fst (logToDisk os jr x) = Done"
  unfolding logToDisk_def Let_def
  by (auto split: option.splits prod.splits log_outcome.splits)

lemma finalize_result:
  assumes "finalize os st run j jr x = (e, jr2, evs, x')"
  shows "jr2 = flushLogBuffer jr \<and>
         (\<exists>c. milestones evs = MPersist # c \<and> list_all is_cascade_mark c \<and>
              (e = Done \<longrightarrow> c = cascade_marks j (actions_for st j (Status jr = 0))))"
proof -
  obtain e1 evs1 x1 where l: "logToDisk os (flushLogBuffer jr) x = (e1, evs1, x1)"
    by (cases "logToDisk os (flushLogBuffer jr) x") auto
  note lm = logToDisk_milestones [OF l]
  show ?thesis
  proof (cases "e1 = Done")
    case False
    then have "finalize os st run j jr x = (e1, flushLogBuffer jr, evs1, x1)"
      using l by (cases e1) (simp_all add: finalize_def Let_def)
    with assms lm False show ?thesis by auto
  next
    case True
    obtain e2 evs2 x2 where o: "OnEvent os st run j (flushLogBuffer jr) x1 = (e2, evs2, x2)"
      by (cases "OnEvent os st run j (flushLogBuffer jr) x1") auto
    have "finalize os st run j jr x = (e2, flushLogBuffer jr, evs1 @ evs2, x2)"
      using l True o by (simp add: finalize_def Let_def)
    with assms have "e = e2" "jr2 = flushLogBuffer jr" "evs = evs1 @ evs2" by simp_all
    then show ?thesis
      using lm OnEvent_milestones [OF o] by (simp add: flushLogBuffer_def)
  qed
qed

lemma Status_flushLogBuffer [simp]: "Status (flushLogBuffer jr) = Status jr"
  by (simp add: flushLogBuffer_def)

lemma wrap64_id: "is_int64 n \<Longrightarrow> wrap64 n = n"
  by (simp add: wrap64_def is_int64_def)

lemma wrap64_succ_le: "is_int64 r \<Longrightarrow> wrap64 (r + 1) \<le> r + 1"
  by (auto simp: wrap64_def is_int64_def zmod_le_nonneg_dividend)

lemma execCommand_fields:
  "execCommand os j trigger parameters x = (jr, evs, x1) \<Longrightarrow>
     TriggeredBy jr = trigger \<and> jobRef jr = Some j \<and> RunName jr = Name j"
  unfolding execCommand_def Let_def
  by (auto simp: run_cmd_def Let_def zeroJobRun_def split: list.splits prod.splits proc_outcome.splits if_splits)

lemma execCommand_fst_fields [simp]:
  "TriggeredBy (fst (execCommand os j trigger parameters x)) = trigger"
  "jobRef (fst (execCommand os j trigger parameters x)) = Some j"
  using execCommand_fields [of os j trigger parameters x] 
  by (cases "execCommand os j trigger parameters x"; simp)+

lemma flushLogBuffer_fields [simp]:
  "TriggeredBy (flushLogBuffer jr) = TriggeredBy jr"
  "jobRef (flushLogBuffer jr) = jobRef jr"
  "logBuf (flushLogBuffer jr) = logBuf jr"
  "Log (flushLogBuffer jr) = logBuf jr"
  "RunName (flushLogBuffer jr) = RunName jr"
  "Duration (flushLogBuffer jr) = Duration jr"
  by (simp_all add: flushLogBuffer_def)

subsection \<open>The course of the retry loop\<close>

text \<open>
  Whatever the finalisations do, a call of the loop takes one of the courses of
  \<open>retry_course\<close>, and it returns when the finalisations of the job's runs return.
\<close>

lemma retry_course_success:
  "tries + int m < wrap64 (Retries j + 1) \<Longrightarrow> Status jr' = 0 \<Longrightarrow>
   finalize os st run j (fst (execCommand os j (attempt_trigger trigger (tries + int m)) ps x0)) x1
     = (e, jr', e2, x') \<Longrightarrow>
   milestones new = fail_blocks st j trigger tries m
      @ [MAttempt (attempt_trigger trigger (tries + int m)), MSuccess, MPersist] @ c \<Longrightarrow>
   list_all is_cascade_mark c \<Longrightarrow>
   (e = Done \<longrightarrow> c = cascade_marks j (actions_for st j True)) \<Longrightarrow>
   retry_course os st run j trigger ps tries jr x e jr' new x'"
  unfolding retry_course_def
  apply (rule disjI2, rule disjI1)
  apply (intro exI conjI)
       apply assumption+
  done

lemma retry_course_exhausted:
  "tries + int m + 1 = wrap64 (Retries j + 1) \<Longrightarrow> Status jr' \<noteq> 0 \<Longrightarrow> e = Done \<Longrightarrow>
   finalize os st run j (fst (execCommand os j (attempt_trigger trigger (tries + int m)) ps x0)) x1
     = (Done, jr', e2, x2) \<Longrightarrow>
   milestones new = fail_blocks st j trigger tries (Suc m) \<Longrightarrow>
   retry_course os st run j trigger ps tries jr x e jr' new x'"
  unfolding retry_course_def
  apply (rule disjI2, rule disjI2, rule disjI1)
  apply (intro exI conjI)
      apply assumption+
  done

lemma retry_course_aborted:
  "tries + int m < wrap64 (Retries j + 1) \<Longrightarrow> Status jr' \<noteq> 0 \<Longrightarrow> e \<noteq> Done \<Longrightarrow>
   finalize os st run j (fst (execCommand os j (attempt_trigger trigger (tries + int m)) ps x0)) x1
     = (e, jr', e2, x') \<Longrightarrow>
   milestones new = fail_blocks st j trigger tries m
      @ [MAttempt (attempt_trigger trigger (tries + int m)), MPersist] @ c \<Longrightarrow>
   list_all is_cascade_mark c \<Longrightarrow>
   retry_course os st run j trigger ps tries jr x e jr' new x'"
  unfolding retry_course_def
  apply (rule disjI2, rule disjI2, rule disjI2)
  apply (intro exI conjI)
       apply assumption+
  done

lemma retry_loop_shape:
  assumes "retry_loop os (finalize os st run) j trigger ps tries jr evs x = (e, jr', evs', x')"
  shows "\<exists>new. evs' = evs @ new \<and> retry_course os st run j trigger ps tries jr x e jr' new x'"
  using assms
proof (induction "nat (wrap64 (Retries j + 1) - tries)" arbitrary: tries jr evs x rule: less_induct)
  case less
  let ?b = "wrap64 (Retries j + 1)"
  let ?d = "attempt_trigger trigger tries"
  show ?case
  proof (cases "tries < ?b")
    case False
    then have "retry_loop os (finalize os st run) j trigger ps tries jr evs x = (Done, jr, evs, x)"
      by (simp add: retry_loop.simps)
    with less.prems False show ?thesis
      by (simp add: retry_course_def)
  next
    case True
    obtain jr1 e1 x1 where ex: "execCommand os j ?d ps x = (jr1, e1, x1)"
      by (cases "execCommand os j ?d ps x") auto
    obtain ef jr2 e2 x2 where fi: "finalize os st run j jr1 x1 = (ef, jr2, e2, x2)"
      by (cases "finalize os st run j jr1 x1") auto
    from finalize_result [OF fi] obtain c where
      jr2: "jr2 = flushLogBuffer jr1" and me2: "milestones e2 = MPersist # c"
      and cc: "list_all is_cascade_mark c"
      and cd: "ef = Done \<longrightarrow> c = cascade_marks j (actions_for st j (Status jr1 = 0))"
      by blast
    have me1: "milestones e1 = MAttempt ?d # (if Status jr1 = 0 then [MSuccess] else [])"
      using execCommand_milestones [OF ex] .
    have jr1: "jr1 = fst (execCommand os j (attempt_trigger trigger (tries + int 0)) ps x)"
      using ex by simp
    have fi0: "finalize os st run j
            (fst (execCommand os j (attempt_trigger trigger (tries + int 0)) ps x)) x1
            = (ef, jr2, e2, x2)"
      using fi jr1 by simp
    have lt0: "tries + int 0 < ?b"
      using True by simp
    have st2: "Status jr2 = Status jr1"
      using jr2 by simp
    show ?thesis
    proof (cases "ef = Done")
      case nd: False
      have res: "retry_loop os (finalize os st run) j trigger ps tries jr evs x
                   = (ef, jr2, evs @ (e1 @ e2), x2)"
        using True ex fi nd by (cases ef) (simp_all add: retry_loop.simps [of _ _ _ _ _ tries])
      with less.prems have eq: "e = ef" "jr' = jr2" "evs' = evs @ (e1 @ e2)" "x' = x2"
        by simp_all
      have fi1: "finalize os st run j
            (fst (execCommand os j (attempt_trigger trigger (tries + int 0)) ps x)) x1
            = (e, jr', e2, x')"
        using fi0 eq by simp
      have nd': "e \<noteq> Done"
        using nd eq by simp
      show ?thesis
      proof (cases "Status jr1 = 0")
        case True
        have m: "milestones (e1 @ e2) = fail_blocks st j trigger tries 0
               @ [MAttempt (attempt_trigger trigger (tries + int 0)), MSuccess, MPersist] @ c"
          using me1 me2 True by simp
        have s: "Status jr' = 0"
          using eq st2 True by simp
        have "retry_course os st run j trigger ps tries jr x e jr' (e1 @ e2) x'"
          using retry_course_success [OF lt0 s fi1 m cc] nd' by simp
        with eq(3) show ?thesis by blast
      next
        case False
        have m: "milestones (e1 @ e2) = fail_blocks st j trigger tries 0
               @ [MAttempt (attempt_trigger trigger (tries + int 0)), MPersist] @ c"
          using me1 me2 False by simp
        have s: "Status jr' \<noteq> 0"
          using eq st2 False by simp
        have "retry_course os st run j trigger ps tries jr x e jr' (e1 @ e2) x'"
          by (rule retry_course_aborted [OF lt0 s nd' fi1 m cc])
        with eq(3) show ?thesis by blast
      qed
    next
      case dn: True
      show ?thesis
      proof (cases "Status jr1 = 0")
        case True
        have res: "retry_loop os (finalize os st run) j trigger ps tries jr evs x
                   = (Done, jr2, evs @ (e1 @ e2), x2)"
          using \<open>tries < ?b\<close> ex fi dn True st2
          by (simp add: retry_loop.simps [of _ _ _ _ _ tries])
        with less.prems have eq: "e = Done" "jr' = jr2" "evs' = evs @ (e1 @ e2)" "x' = x2"
          by simp_all
        have m: "milestones (e1 @ e2) = fail_blocks st j trigger tries 0
               @ [MAttempt (attempt_trigger trigger (tries + int 0)), MSuccess, MPersist] @ c"
          using me1 me2 True by simp
        have cT: "c = cascade_marks j (actions_for st j True)"
          using cd dn True by simp
        have fi1: "finalize os st run j
            (fst (execCommand os j (attempt_trigger trigger (tries + int 0)) ps x)) x1
            = (e, jr', e2, x')"
          using fi0 eq dn by simp
        have s: "Status jr' = 0"
          using eq st2 True by simp
        have "retry_course os st run j trigger ps tries jr x e jr' (e1 @ e2) x'"
          using retry_course_success [OF lt0 s fi1 m cc] cT by simp
        with eq(3) show ?thesis by blast
      next
        case False
        let ?blk = "e1 @ e2 @ [LogRetry (Name j) (Status jr2), Sleep timeOut]"
        let ?evs = "evs @ e1 @ e2 @ [LogRetry (Name j) (Status jr2), Sleep timeOut]"
        have step: "retry_loop os (finalize os st run) j trigger ps tries jr evs x
            = retry_loop os (finalize os st run) j trigger ps (tries + 1) jr2 ?evs (sleep os timeOut x2)"
          using \<open>tries < ?b\<close> ex fi dn False st2
          by (simp add: retry_loop.simps [of _ _ _ _ _ tries])
        have cF: "c = cascade_marks j (actions_for st j False)"
          using cd dn False by simp
        have mblk: "milestones ?blk = [MAttempt ?d, MPersist] @ cascade_marks j (actions_for st j False) @ [MSleep]"
          using me1 me2 False cF by simp
        have dec: "nat (?b - (tries + 1)) < nat (?b - tries)"
          using \<open>tries < ?b\<close> by simp
        from less.hyps [OF dec, of jr2 ?evs "sleep os timeOut x2"] step less.prems
        obtain new where
          new: "evs' = ?evs @ new"
          and co: "retry_course os st run j trigger ps (tries + 1) jr2 (sleep os timeOut x2) e jr' new x'"
          by auto
        have evs': "evs' = evs @ (?blk @ new)"
          using new by simp
        have mnew: "milestones (?blk @ new)
            = [MAttempt ?d, MPersist] @ cascade_marks j (actions_for st j False) @ [MSleep] @ milestones new"
        proof -
          have "milestones (?blk @ new) = milestones ?blk @ milestones new"
            by (simp only: milestones_def map_append concat_append)
          then show ?thesis
            by (simp only: mblk append_assoc)
        qed
        have shift: "\<And>m. tries + 1 + int m = tries + int (Suc m)"
          by simp
        have "retry_course os st run j trigger ps tries jr x e jr' (?blk @ new) x'"
          using co unfolding retry_course_def [of os st run j trigger ps "tries + 1"]
        proof (elim disjE exE conjE)
          assume a: "\<not> tries + 1 < ?b" "new = []" "jr' = jr2" "e = Done"
          have b1: "tries + int 0 + 1 = ?b"
            using a(1) \<open>tries < ?b\<close> by simp
          have m: "milestones (?blk @ new) = fail_blocks st j trigger tries (Suc 0)"
            using mnew a(2) by simp
          have s: "Status jr' \<noteq> 0"
            using a(3) st2 False by simp
          have f: "finalize os st run j
            (fst (execCommand os j (attempt_trigger trigger (tries + int 0)) ps x)) x1
            = (Done, jr', e2, x2)"
            using fi0 dn a(3) by simp
          show ?thesis
            by (rule retry_course_exhausted [OF b1 s a(4) f m])
        next
          fix m x0 y1 f2 c'
          assume a: "tries + 1 + int m < ?b" "Status jr' = 0"
            "finalize os st run j
               (fst (execCommand os j (attempt_trigger trigger (tries + 1 + int m)) ps x0)) y1
               = (e, jr', f2, x')"
            "milestones new = fail_blocks st j trigger (tries + 1) m
               @ [MAttempt (attempt_trigger trigger (tries + 1 + int m)), MSuccess, MPersist] @ c'"
            "list_all is_cascade_mark c'"
            "e = Done \<longrightarrow> c' = cascade_marks j (actions_for st j True)"
          have m: "milestones (?blk @ new) = fail_blocks st j trigger tries (Suc m)
               @ [MAttempt (attempt_trigger trigger (tries + int (Suc m))), MSuccess, MPersist] @ c'"
            using mnew a(4) by (simp add: shift)
          show ?thesis
            using retry_course_success [OF a(1) [unfolded shift] a(2) a(3) [unfolded shift] m a(5)] a(6)
            by simp
        next
          fix m x0 y1 f2 y2
          assume a: "tries + 1 + int m + 1 = ?b" "Status jr' \<noteq> 0" "e = Done"
            "finalize os st run j
               (fst (execCommand os j (attempt_trigger trigger (tries + 1 + int m)) ps x0)) y1
               = (Done, jr', f2, y2)"
            "milestones new = fail_blocks st j trigger (tries + 1) (Suc m)"
          have m: "milestones (?blk @ new) = fail_blocks st j trigger tries (Suc (Suc m))"
            using mnew a(5) by simp
          show ?thesis
            by (rule retry_course_exhausted [OF a(1) [unfolded shift] a(2) a(3) a(4) [unfolded shift] m])
        next
          fix m x0 y1 f2 c'
          assume a: "tries + 1 + int m < ?b" "Status jr' \<noteq> 0" "e \<noteq> Done"
            "finalize os st run j
               (fst (execCommand os j (attempt_trigger trigger (tries + 1 + int m)) ps x0)) y1
               = (e, jr', f2, x')"
            "milestones new = fail_blocks st j trigger (tries + 1) m
               @ [MAttempt (attempt_trigger trigger (tries + 1 + int m)), MPersist] @ c'"
            "list_all is_cascade_mark c'"
          have m: "milestones (?blk @ new) = fail_blocks st j trigger tries (Suc m)
               @ [MAttempt (attempt_trigger trigger (tries + int (Suc m))), MPersist] @ c'"
            using mnew a(5) by (simp add: shift)
          show ?thesis
            by (rule retry_course_aborted [OF a(1) [unfolded shift] a(2) a(3) a(4) [unfolded shift] m a(6)])
        qed
        with evs' show ?thesis by blast
      qed
    qed
  qed
qed

lemma cascade_mark_facts:
  "list_all is_cascade_mark c \<Longrightarrow>
     attempts_of c = [] \<and> MSuccess \<notin> set c \<and> MSleep \<notin> set c \<and> MPersist \<notin> set c"
  by (induction c rule: attempts_of.induct) auto

lemma attempts_of_append: "attempts_of (xs @ ys) = attempts_of xs @ attempts_of ys"
  by (induction xs rule: attempts_of.induct) auto

lemma fail_blocks_no_success: "MSuccess \<notin> set (fail_blocks st j trigger tries m)"
  using cascade_mark_facts [OF cascade_marks_all [of j "actions_for st j False"]]
  by (induction m arbitrary: tries) auto

lemma attempts_of_fail_blocks:
  "attempts_of (fail_blocks st j trigger tries m)
     = map (\<lambda>k. attempt_trigger trigger (tries + int k)) [0..<m]"
proof (induction m arbitrary: tries)
  case 0
  then show ?case by simp
next
  case (Suc m)
  have "map (\<lambda>k. attempt_trigger trigger (tries + int k)) [0..<Suc m]
        = attempt_trigger trigger tries # map (\<lambda>k. attempt_trigger trigger (tries + 1 + int k)) [0..<m]"
  proof -
    have "[0..<Suc m] = 0 # map Suc [0..<m]"
      by (simp add: upt_conv_Cons map_Suc_upt del: upt_Suc)
    then show ?thesis
      by (simp add: o_def add.assoc del: upt_Suc)
  qed
  with Suc [of "tries + 1"]
    cascade_mark_facts [OF cascade_marks_all [of j "actions_for st j False"]]
  show ?case
    by (simp add: attempts_of_append)
qed

lemma retry_course_returns:
  assumes co: "retry_course os st run j trigger ps tries jr x e jr' new x'"
    and fin: "\<forall>r y. jobRef r = Some j \<longrightarrow> fst (finalize os st run j r y) = Done"
  shows "e = Done"
proof -
  have k: "\<And>t x0 x1 e2. finalize os st run j (fst (execCommand os j t ps x0)) x1
             = (e, jr', e2, x') \<Longrightarrow> e = Done"
    using fin by (metis fst_conv execCommand_fst_fields(2))
  show ?thesis
    using co unfolding retry_course_def
    by (elim disjE exE conjE) (auto dest: k)
qed

lemmas example_defs = example_os_def example_proc_def example_job_def no_schedule_def
  zeroSchedule_def emptyOnEvent_def

lemmas run_defs = execCommand_def run_cmd_def now_def render_param_def finalize_def
  logToDisk_def OnEvent_def select_actions_def flushLogBuffer_def attempt_trigger_def
  timeOut_def wrap64_def Let_def

lemmas chain_defs = chain_store_def chain_schedule_def chain_job_def job_a_def run_a_def
  job_f_def job_g_def job_p_def

lemmas template_defs = go_parse_def go_execute_def field_name_def ident_char_def trim_def
  blank_def

section \<open>The claims\<close>

subsection \<open>C2: a command that always fails\<close>

text \<open>
  C2, as amended. For a job with \<open>0 \<le> Retries j < 2^63 - 1\<close> whose command fails on every
  attempt, a call of \<^verbatim>\<open>execCommandWithRetry\<close> returns whenever the finalisations of the
  job's runs return, and a call that returns has made exactly \<open>Retries j + 1\<close> attempts,
  each followed by its finalisation, which is the job log and then the whole cascade for
  an error (one goroutine for each dependent job and each webhook of the job's own and of
  the schedule's \<^verbatim>\<open>on_error\<close> lists), and by the backoff delay; the first attempt has the
  caller's trigger descriptor, the attempt numbered \<open>N\<close> has \<^verbatim>\<open>trigger[retry=N]\<close>; the
  run returned is the run of the last attempt.
\<close>

theorem C2_retries_exhausted:
  assumes lo: "0 \<le> Retries j" and hi: "Retries j < 2 ^ 63 - 1"
    and fails: "\<And>trig x. Status (fst (execCommand os j trig parameters x)) \<noteq> 0"
  shows "\<exists>e jr evs x'.
     execCommandWithRetry (Suc depth) os st j trigger parameters x = (e, jr, evs, x') \<and>
     ((\<forall>r y. jobRef r = Some j \<longrightarrow>
          fst (finalize os st (execCommandWithRetry depth os st) j r y) = Done) \<longrightarrow> e = Done) \<and>
     (e = Done \<longrightarrow>
        milestones evs = fail_blocks st j trigger 0 (nat (Retries j) + 1) \<and>
        attempts_of (milestones evs)
          = map (\<lambda>k. attempt_trigger trigger (int k)) [0..<nat (Retries j) + 1] \<and>
        (\<exists>x0. jr = flushLogBuffer
                 (fst (execCommand os j (attempt_trigger trigger (Retries j)) parameters x0))) \<and>
        TriggeredBy jr = attempt_trigger trigger (Retries j))"
proof -
  let ?run = "execCommandWithRetry depth os st"
  have b: "wrap64 (Retries j + 1) = Retries j + 1"
    using lo hi by (intro wrap64_id) (simp add: is_int64_def)
  obtain e jr evs x' where
    res: "execCommandWithRetry (Suc depth) os st j trigger parameters x = (e, jr, evs, x')"
    by (cases "execCommandWithRetry (Suc depth) os st j trigger parameters x") auto
  then have "retry_loop os (finalize os st ?run) j trigger parameters 0 zeroJobRun [] x
               = (e, jr, evs, x')"
    by simp
  from retry_loop_shape [OF this]
  have co: "retry_course os st ?run j trigger parameters 0 zeroJobRun x e jr evs x'"
    by simp
  have ret: "(\<forall>r y. jobRef r = Some j \<longrightarrow> fst (finalize os st ?run j r y) = Done) \<longrightarrow> e = Done"
    using retry_course_returns [OF co] by blast
  have "e = Done \<longrightarrow>
        milestones evs = fail_blocks st j trigger 0 (nat (Retries j) + 1) \<and>
        attempts_of (milestones evs)
          = map (\<lambda>k. attempt_trigger trigger (int k)) [0..<nat (Retries j) + 1] \<and>
        (\<exists>x0. jr = flushLogBuffer
                 (fst (execCommand os j (attempt_trigger trigger (Retries j)) parameters x0))) \<and>
        TriggeredBy jr = attempt_trigger trigger (Retries j)"
    using co unfolding retry_course_def
  proof (elim disjE exE conjE)
    assume "\<not> 0 < wrap64 (Retries j + 1)"
    with b lo show ?thesis by simp
  next
    fix m x0 x1 e2 c
    assume "Status jr = 0"
      "finalize os st ?run j
         (fst (execCommand os j (attempt_trigger trigger (0 + int m)) parameters x0)) x1
         = (e, jr, e2, x')"
    with finalize_result [of os st ?run j _ x1 e jr e2 x'] fails show ?thesis
      by (metis Status_flushLogBuffer)
  next
    fix m x0 x1 e2 x2
    assume a: "0 + int m + 1 = wrap64 (Retries j + 1)"
      "finalize os st ?run j
         (fst (execCommand os j (attempt_trigger trigger (0 + int m)) parameters x0)) x1
         = (Done, jr, e2, x2)"
      "milestones evs = fail_blocks st j trigger 0 (Suc m)"
    have m: "int m = Retries j" "Suc m = nat (Retries j) + 1"
      using a(1) b by simp_all
    have jr: "jr = flushLogBuffer
                 (fst (execCommand os j (attempt_trigger trigger (Retries j)) parameters x0))"
      using finalize_result [OF a(2)] m(1) by simp
    have "attempts_of (milestones evs)
            = map (\<lambda>k. attempt_trigger trigger (int k)) [0..<nat (Retries j) + 1]"
      using attempts_of_fail_blocks [of st j trigger 0 "Suc m"] a(3) m(2) by simp
    moreover have "TriggeredBy jr = attempt_trigger trigger (Retries j)"
      using jr by simp
    ultimately show ?thesis
      using a(3) m(2) jr by auto
  next
    assume "e \<noteq> Done"
    then show ?thesis by simp
  qed
  with res ret show ?thesis by blast
qed

text \<open>The theorem at a job \<^verbatim>\<open>["false"]\<close> with two retries, in a schedule whose
  \<^verbatim>\<open>on_error\<close> triggers the job \<^verbatim>\<open>report\<close>.\<close>

theorem C2_retries_exhausted_witness:
  "\<exists>jr evs x'.
     execCommandWithRetry (Suc (Suc 0)) (example_os example_proc LogWritten) chain_store
        job_f ''cron'' Map.empty 0 = (Done, jr, evs, x') \<and>
     milestones evs = [MAttempt ''cron'', MPersist, MDispatch ''report'' ''job[f]'', MSleep,
                       MAttempt ''cron[retry=1]'', MPersist, MDispatch ''report'' ''job[f]'', MSleep,
                       MAttempt ''cron[retry=2]'', MPersist, MDispatch ''report'' ''job[f]'', MSleep] \<and>
     attempts_of (milestones evs) = [''cron'', ''cron[retry=1]'', ''cron[retry=2]''] \<and>
     TriggeredBy jr = ''cron[retry=2]'' \<and> Status jr = 1"
proof -
  let ?os = "example_os example_proc LogWritten"
  have fails: "\<And>trig x. Status (fst (execCommand ?os job_f trig Map.empty x)) \<noteq> 0"
    by (simp add: example_defs run_defs chain_defs zeroJobRun_def)
  have fin: "\<forall>r y. jobRef r = Some job_f \<longrightarrow>
               fst (finalize ?os chain_store (execCommandWithRetry (Suc 0) ?os chain_store) job_f r y) = Done"
    by (simp add: retry_loop.simps example_defs run_defs chain_defs zeroJobRun_def template_defs)
  have st: "\<And>x0. Status (flushLogBuffer (fst (execCommand ?os job_f (attempt_trigger ''cron'' 2) Map.empty x0))) = 1"
    by (simp add: example_defs run_defs chain_defs zeroJobRun_def)
  have r: "(0::int) \<le> Retries job_f" "Retries job_f < 2 ^ 63 - 1" "Retries job_f = 2"
    by (simp_all add: chain_defs example_job_def)
  have cm: "cascade_marks job_f (actions_for chain_store job_f False) = [MDispatch ''report'' ''job[f]'']"
    by (simp add: cascade_marks_def actions_for_def chain_defs example_defs)
  from C2_retries_exhausted [where j = job_f and os = ?os and parameters = Map.empty
      and st = chain_store and depth = "Suc 0" and trigger = "''cron''" and x = 0, OF r(1,2) fails]
    fin
  show ?thesis
    using st r(3) cm
    by (auto simp: attempt_trigger_def show_int_def show_nat.simps numeral_2_eq_2 eval_nat_numeral)
qed

text \<open>
  C2 as stated fails at \<open>Retries j = 2^63 - 1\<close>: \<^verbatim>\<open>j.Retries+1\<close> wraps to the least
  integer, the loop condition is false at once and no attempt is made, although the command
  would fail.
\<close>

theorem C2_overflow_counterexample:
  "execCommandWithRetry (Suc 0) (example_os example_proc LogWritten) no_schedule
        (example_job ''B'' [''false''] 9223372036854775807) ''cron'' Map.empty 0
     = (Done, zeroJobRun, [], 0)
   \<and> Status (fst (execCommand (example_os example_proc LogWritten)
        (example_job ''B'' [''false''] 9223372036854775807) ''cron'' Map.empty 0)) = 1"
  by (simp add: retry_loop.simps example_defs run_defs zeroJobRun_def)

subsection \<open>C3: the first success ends the loop\<close>

text \<open>
  C3. In every call of \<^verbatim>\<open>execCommandWithRetry\<close>, if one of the attempts ended with status
  0 then that attempt is the last: before it there are only failed attempts (each with its
  finalisation and its backoff delay), after it only its own finalisation, that is the job
  log and the goroutines of its cascade, with no further attempt and no delay. The run
  left has status 0, and a success at the attempt numbered \<open>m < Retries j\<close> leaves the
  number of attempts, \<open>m + 1\<close>, below \<open>Retries j + 1\<close>. The call returns whenever the
  finalisations of the job's runs return.
\<close>

theorem C3_success_stops_loop:
  assumes r: "is_int64 (Retries j)"
  shows "\<exists>e jr evs x'.
     execCommandWithRetry (Suc depth) os st j trigger parameters x = (e, jr, evs, x') \<and>
     ((\<forall>r y. jobRef r = Some j \<longrightarrow>
          fst (finalize os st (execCommandWithRetry depth os st) j r y) = Done) \<longrightarrow> e = Done) \<and>
     (MSuccess \<in> set (milestones evs) \<longrightarrow>
        Status jr = 0 \<and>
        (\<exists>m tail. int m \<le> Retries j \<and>
           milestones evs = fail_blocks st j trigger 0 m
              @ [MAttempt (attempt_trigger trigger (int m)), MSuccess, MPersist] @ tail \<and>
           MSuccess \<notin> set (fail_blocks st j trigger 0 m) \<and>
           list_all is_cascade_mark tail \<and> attempts_of tail = [] \<and> MSleep \<notin> set tail \<and>
           (e = Done \<longrightarrow> tail = cascade_marks j (actions_for st j True)) \<and>
           length (attempts_of (milestones evs)) = m + 1 \<and>
           (int m < Retries j \<longrightarrow> int (length (attempts_of (milestones evs))) < Retries j + 1)))"
proof -
  let ?run = "execCommandWithRetry depth os st"
  obtain e jr evs x' where
    res: "execCommandWithRetry (Suc depth) os st j trigger parameters x = (e, jr, evs, x')"
    by (cases "execCommandWithRetry (Suc depth) os st j trigger parameters x") auto
  then have "retry_loop os (finalize os st ?run) j trigger parameters 0 zeroJobRun [] x
               = (e, jr, evs, x')"
    by simp
  from retry_loop_shape [OF this]
  have co: "retry_course os st ?run j trigger parameters 0 zeroJobRun x e jr evs x'"
    by simp
  have ret: "(\<forall>r y. jobRef r = Some j \<longrightarrow> fst (finalize os st ?run j r y) = Done) \<longrightarrow> e = Done"
    using retry_course_returns [OF co] by blast
  have "MSuccess \<in> set (milestones evs) \<longrightarrow>
        Status jr = 0 \<and>
        (\<exists>m tail. int m \<le> Retries j \<and>
           milestones evs = fail_blocks st j trigger 0 m
              @ [MAttempt (attempt_trigger trigger (int m)), MSuccess, MPersist] @ tail \<and>
           MSuccess \<notin> set (fail_blocks st j trigger 0 m) \<and>
           list_all is_cascade_mark tail \<and> attempts_of tail = [] \<and> MSleep \<notin> set tail \<and>
           (e = Done \<longrightarrow> tail = cascade_marks j (actions_for st j True)) \<and>
           length (attempts_of (milestones evs)) = m + 1 \<and>
           (int m < Retries j \<longrightarrow> int (length (attempts_of (milestones evs))) < Retries j + 1))"
    using co unfolding retry_course_def
  proof (elim disjE exE conjE)
    assume "evs = []"
    then show ?thesis by simp
  next
    fix m x0 x1 e2 c
    assume a: "0 + int m < wrap64 (Retries j + 1)" "Status jr = 0"
      "milestones evs = fail_blocks st j trigger 0 m
             @ [MAttempt (attempt_trigger trigger (0 + int m)), MSuccess, MPersist] @ c"
      "list_all is_cascade_mark c"
      "e = Done \<longrightarrow> c = cascade_marks j (actions_for st j True)"
    have le: "int m \<le> Retries j"
      using a(1) wrap64_succ_le [OF r] by simp
    note cf = cascade_mark_facts [OF a(4)]
    have len: "length (attempts_of (milestones evs)) = m + 1"
      using a(3) cf by (simp add: attempts_of_append attempts_of_fail_blocks)
    have ms: "milestones evs = fail_blocks st j trigger 0 m
              @ [MAttempt (attempt_trigger trigger (int m)), MSuccess, MPersist] @ c"
      using a(3) by simp
    show ?thesis
      using a(2,4,5) le len ms cf fail_blocks_no_success [of st j trigger 0 m]
      by (intro impI conjI exI [of _ m] exI [of _ c]) simp_all
  next
    fix m
    assume "milestones evs = fail_blocks st j trigger 0 (Suc m)"
    then show ?thesis
      using fail_blocks_no_success [of st j trigger 0 "Suc m"] by metis
  next
    fix m c
    assume a: "milestones evs = fail_blocks st j trigger 0 m
             @ [MAttempt (attempt_trigger trigger (0 + int m)), MPersist] @ c"
      "list_all is_cascade_mark c"
    show ?thesis
      using a(1) cascade_mark_facts [OF a(2)] fail_blocks_no_success [of st j trigger 0 m]
      by simp
  qed
  with res ret show ?thesis by blast
qed

text \<open>The theorem at a job that fails once and then succeeds, with three retries allowed:
  two attempts are made, and the dependent job of the success is triggered.\<close>

theorem C3_success_stops_loop_witness:
  "\<exists>jr evs x'.
     execCommandWithRetry (Suc (Suc 0)) (example_os example_proc LogWritten) chain_store
        job_g ''cron'' Map.empty 0 = (Done, jr, evs, x') \<and>
     milestones evs = [MAttempt ''cron'', MPersist, MDispatch ''report'' ''job[g]'', MSleep,
                       MAttempt ''cron[retry=1]'', MSuccess, MPersist, MDispatch ''b'' ''job[g]''] \<and>
     Status jr = 0 \<and> length (attempts_of (milestones evs)) = 2"
proof -
  let ?os = "example_os example_proc LogWritten"
  have r: "is_int64 (Retries job_g)"
    by (simp add: chain_defs example_job_def is_int64_def)
  have run: "\<exists>jr evs x'.
     execCommandWithRetry (Suc (Suc 0)) ?os chain_store job_g ''cron'' Map.empty 0 = (Done, jr, evs, x') \<and>
     milestones evs = [MAttempt ''cron'', MPersist, MDispatch ''report'' ''job[g]'', MSleep,
                       MAttempt ''cron[retry=1]'', MSuccess, MPersist, MDispatch ''b'' ''job[g]'']"
    by (simp add: retry_loop.simps example_defs run_defs chain_defs zeroJobRun_def template_defs
          show_int_def show_nat.simps)
  then obtain jr evs x' where
    res: "execCommandWithRetry (Suc (Suc 0)) ?os chain_store job_g ''cron'' Map.empty 0
            = (Done, jr, evs, x')"
    and ms: "milestones evs = [MAttempt ''cron'', MPersist, MDispatch ''report'' ''job[g]'', MSleep,
                       MAttempt ''cron[retry=1]'', MSuccess, MPersist, MDispatch ''b'' ''job[g]'']"
    by blast
  from C3_success_stops_loop [where j = job_g and os = ?os and st = chain_store
      and depth = "Suc 0" and trigger = "''cron''" and parameters = Map.empty and x = 0, OF r]
  have "MSuccess \<in> set (milestones evs) \<longrightarrow> Status jr = 0"
    unfolding res by simp
  then have "Status jr = 0"
    using ms by simp
  with res ms show ?thesis
    by simp
qed

subsection \<open>C10: the number of retries and the first attempt\<close>

text \<open>
  C10, as amended. For a job whose \<^verbatim>\<open>Retries\<close> is negative, \<^verbatim>\<open>execCommandWithRetry\<close>
  makes no attempt and no finalisation (it has no effect at all) and returns the zero
  value of \<^verbatim>\<open>JobRun\<close>, whose status is 0. For \<open>0 \<le> Retries j < 2^63 - 1\<close> at least one
  attempt is executed, however the call ends: the first thing it does is the attempt with
  the caller's trigger descriptor, whose finalisation reaches the job log, and the run it
  leaves is not the zero value.
\<close>

theorem C10_retry_bound:
  assumes r: "is_int64 (Retries j)"
  shows "(Retries j < 0 \<longrightarrow>
            execCommandWithRetry (Suc depth) os st j trigger parameters x
              = (Done, zeroJobRun, [], x) \<and> Status zeroJobRun = 0)
       \<and> (0 \<le> Retries j \<and> Retries j < 2 ^ 63 - 1 \<longrightarrow>
          (\<exists>e jr evs x' rest.
             execCommandWithRetry (Suc depth) os st j trigger parameters x = (e, jr, evs, x') \<and>
             milestones evs = MAttempt trigger # rest \<and> MPersist \<in> set rest \<and>
             jr \<noteq> zeroJobRun))"
proof (rule conjI; rule impI)
  assume neg: "Retries j < 0"
  have "wrap64 (Retries j + 1) = Retries j + 1"
    using r neg by (intro wrap64_id) (simp add: is_int64_def)
  with neg show "execCommandWithRetry (Suc depth) os st j trigger parameters x
              = (Done, zeroJobRun, [], x) \<and> Status zeroJobRun = 0"
    by (simp add: retry_loop.simps zeroJobRun_def)
next
  let ?run = "execCommandWithRetry depth os st"
  assume a: "0 \<le> Retries j \<and> Retries j < 2 ^ 63 - 1"
  have b: "wrap64 (Retries j + 1) = Retries j + 1"
    using a by (intro wrap64_id) (simp add: is_int64_def)
  obtain e jr evs x' where
    res: "execCommandWithRetry (Suc depth) os st j trigger parameters x = (e, jr, evs, x')"
    by (cases "execCommandWithRetry (Suc depth) os st j trigger parameters x") auto
  then have "retry_loop os (finalize os st ?run) j trigger parameters 0 zeroJobRun [] x
               = (e, jr, evs, x')"
    by simp
  from retry_loop_shape [OF this]
  have co: "retry_course os st ?run j trigger parameters 0 zeroJobRun x e jr evs x'"
    by simp
  have t0: "attempt_trigger trigger 0 = trigger"
    by (simp add: attempt_trigger_def)
  have nz: "\<And>t x0. flushLogBuffer (fst (execCommand os j t parameters x0)) \<noteq> zeroJobRun"
  proof
    fix t x0
    assume "flushLogBuffer (fst (execCommand os j t parameters x0)) = zeroJobRun"
    then have "jobRef (flushLogBuffer (fst (execCommand os j t parameters x0))) = jobRef zeroJobRun"
      by simp
    then show False
      by (simp add: zeroJobRun_def)
  qed
  have fr: "\<And>t x0 x1 e' e2 y. finalize os st ?run j (fst (execCommand os j t parameters x0)) x1
              = (e', jr, e2, y) \<Longrightarrow> jr \<noteq> zeroJobRun"
    using finalize_result nz by metis
  have "\<exists>rest. milestones evs = MAttempt trigger # rest \<and> MPersist \<in> set rest \<and> jr \<noteq> zeroJobRun"
    using co unfolding retry_course_def
  proof (elim disjE exE conjE)
    assume "\<not> 0 < wrap64 (Retries j + 1)"
    with a b show ?thesis by simp
  next
    fix m x0 x1 e2 c
    assume c: "finalize os st ?run j
                 (fst (execCommand os j (attempt_trigger trigger (0 + int m)) parameters x0)) x1
                 = (e, jr, e2, x')"
      "milestones evs = fail_blocks st j trigger 0 m
             @ [MAttempt (attempt_trigger trigger (0 + int m)), MSuccess, MPersist] @ c"
    show ?thesis
    proof (cases m)
      case 0
      with c(2) t0 fr [OF c(1)] show ?thesis by simp
    next
      case (Suc k)
      with c(2) t0 fr [OF c(1)] show ?thesis by simp
    qed
  next
    fix m x0 x1 e2 x2
    assume c: "finalize os st ?run j
                 (fst (execCommand os j (attempt_trigger trigger (0 + int m)) parameters x0)) x1
                 = (Done, jr, e2, x2)"
      "milestones evs = fail_blocks st j trigger 0 (Suc m)"
    with t0 fr [OF c(1)] show ?thesis by simp
  next
    fix m x0 x1 e2 c
    assume c: "finalize os st ?run j
                 (fst (execCommand os j (attempt_trigger trigger (0 + int m)) parameters x0)) x1
                 = (e, jr, e2, x')"
      "milestones evs = fail_blocks st j trigger 0 m
             @ [MAttempt (attempt_trigger trigger (0 + int m)), MPersist] @ c"
    show ?thesis
    proof (cases m)
      case 0
      with c(2) t0 fr [OF c(1)] show ?thesis by simp
    next
      case (Suc k)
      with c(2) t0 fr [OF c(1)] show ?thesis by simp
    qed
  qed
  with res show "\<exists>e jr evs x' rest.
             execCommandWithRetry (Suc depth) os st j trigger parameters x = (e, jr, evs, x') \<and>
             milestones evs = MAttempt trigger # rest \<and> MPersist \<in> set rest \<and>
             jr \<noteq> zeroJobRun"
    by blast
qed

text \<open>The theorem at a job with \<open>-1\<close> retries and at a job with none whose cascade
  panics: the attempt has been made all the same.\<close>

theorem C10_retry_bound_witness:
  "execCommandWithRetry (Suc 0) (example_os example_proc LogWritten) no_schedule
      (example_job ''N'' [''echo'', ''hi''] (- 1)) ''manual'' Map.empty 7
     = (Done, zeroJobRun, [], 7)
   \<and> Status zeroJobRun = 0
   \<and> (\<exists>jr evs x'.
         execCommandWithRetry (Suc 0) (example_os example_proc LogWritten) no_schedule
           job_p ''manual'' Map.empty 7 = (Panic nil_dereference, jr, evs, x') \<and>
         milestones evs = [MAttempt ''manual'', MSuccess, MPersist] \<and>
         jr \<noteq> zeroJobRun)"
proof -
  let ?os = "example_os example_proc LogWritten"
  let ?n = "example_job ''N'' [''echo'', ''hi''] (- 1)"
  have rn: "is_int64 (Retries ?n)" and rp: "is_int64 (Retries job_p)"
    by (simp_all add: example_job_def job_p_def is_int64_def)
  have neg: "Retries ?n < 0" and pos: "0 \<le> Retries job_p \<and> Retries job_p < 2 ^ 63 - 1"
    by (simp_all add: example_job_def job_p_def)
  have run: "\<exists>jr evs x'.
         execCommandWithRetry (Suc 0) ?os no_schedule job_p ''manual'' Map.empty 7
           = (Panic nil_dereference, jr, evs, x') \<and>
         milestones evs = [MAttempt ''manual'', MSuccess, MPersist]"
    by (simp add: retry_loop.simps example_defs run_defs chain_defs zeroJobRun_def template_defs)
  show ?thesis
    using C10_retry_bound [where j = ?n and depth = 0 and os = ?os and st = no_schedule
        and trigger = "''manual''" and parameters = Map.empty and x = 7, OF rn]
      C10_retry_bound [where j = job_p and depth = 0 and os = ?os and st = no_schedule
        and trigger = "''manual''" and parameters = Map.empty and x = 7, OF rp]
      neg pos run
    by auto
qed

text \<open>
  C10 as stated fails at \<open>Retries j = 2^63 - 1\<close>, which is not negative: no attempt is
  made and the zero value is returned.
\<close>

theorem C10_overflow_counterexample:
  "0 \<le> Retries (example_job ''A'' [''echo'', ''hi''] 9223372036854775807)
   \<and> execCommandWithRetry (Suc 0) (example_os example_proc LogWritten) no_schedule
        (example_job ''A'' [''echo'', ''hi''] 9223372036854775807) ''manual'' Map.empty 0
     = (Done, zeroJobRun, [], 0)"
  by (simp add: retry_loop.simps example_defs run_defs zeroJobRun_def)

subsection \<open>C9: the parameters of an attempt\<close>

text \<open>
  \<^verbatim>\<open>execCommand\<close> builds the run from the job's name, the time, the trigger and the status;
  the \<^verbatim>\<open>Params\<close> field is never assigned, so it is empty whatever parameters are passed.
\<close>

lemma execCommand_RunParams:
  "RunParams (fst (execCommand os j trigger parameters x)) = Map.empty"
  by (auto simp: execCommand_def run_cmd_def zeroJobRun_def Let_def
           split: list.splits prod.splits proc_outcome.splits)

text \<open>
  C9 at the job \<^verbatim>\<open>["echo", "{{.msg}}"]\<close> run with \<^verbatim>\<open>msg=hello\<close>: the parameter is used
  to render the argument, and the run returned does not record it.
\<close>

theorem C9_params_not_recorded:
  "RunParams (fst (execCommand (example_os example_proc LogWritten)
      (example_job ''A'' [''echo'', ''{{.msg}}''] 0) ''manual'' [''msg'' \<mapsto> ''hello''] 0))
     = Map.empty
   \<and> RunParams (fst (execCommand (example_os example_proc LogWritten)
      (example_job ''A'' [''echo'', ''{{.msg}}''] 0) ''manual'' [''msg'' \<mapsto> ''hello''] 0))
     \<noteq> [''msg'' \<mapsto> ''hello'']
   \<and> started_argv (fst (snd (execCommand (example_os example_proc LogWritten)
      (example_job ''A'' [''echo'', ''{{.msg}}''] 0) ''manual'' [''msg'' \<mapsto> ''hello''] 0)))
     = [[''echo'', ''hello'']]"
proof -
  have "Map.empty \<noteq> [''msg'' \<mapsto> ''hello'']"
    by (metis map_upd_nonempty)
  moreover have "started_argv (fst (snd (execCommand (example_os example_proc LogWritten)
      (example_job ''A'' [''echo'', ''{{.msg}}''] 0) ''manual'' [''msg'' \<mapsto> ''hello''] 0)))
     = [[''echo'', ''hello'']]"
    by (simp add: example_defs run_defs zeroJobRun_def template_defs)
  ultimately show ?thesis
    by (simp add: execCommand_RunParams)
qed

subsection \<open>C8: exit code, status and duration\<close>

text \<open>
  C8. For a job with a command, the process's exit code is the status of the run (0 on
  success, any other code as it is), and a failure to start leaves the status at \<open>-1\<close>;
  the duration is the wall-clock time at completion less the trigger time when the exit
  code is 0, and is 0 (never set) when the exit code is not 0 or the process does not
  start.
\<close>

theorem C8_status_and_duration:
  assumes "Command j = c # args"
  shows "case start os (c # map (render_param os parameters) args)
                (environ os x @ map (\<lambda>(k, v). k @ ''='' @ v) (Env j)) (WorkingDirectory j) x of
           (Exited out code, x1) \<Rightarrow>
              Status (fst (execCommand os j trigger parameters x)) = code \<and>
              Duration (fst (execCommand os j trigger parameters x))
                = (if code = 0 then wall_clock os x1 - now os j x else 0) \<and>
              TriggeredAt (fst (execCommand os j trigger parameters x)) = now os j x
         | (StartFailed err, x1) \<Rightarrow>
              Status (fst (execCommand os j trigger parameters x)) = - 1 \<and>
              Duration (fst (execCommand os j trigger parameters x)) = 0
         | (WaitFailed out err, x1) \<Rightarrow>
              Status (fst (execCommand os j trigger parameters x)) = - 1 \<and>
              Duration (fst (execCommand os j trigger parameters x)) = 0"
  using assms
  by (cases args)
     (auto simp: execCommand_def run_cmd_def zeroJobRun_def Let_def
           split: prod.splits proc_outcome.splits)

text \<open>The theorem at a command that exits with 0, at one that exits with 1 and at one that
  does not start.\<close>

theorem C8_status_and_duration_witness:
  "Status (fst (execCommand (example_os example_proc LogWritten)
      (example_job ''ok'' [''echo'', ''hi''] 0) ''cron'' Map.empty 50)) = 0
   \<and> Duration (fst (execCommand (example_os example_proc LogWritten)
      (example_job ''ok'' [''echo'', ''hi''] 0) ''cron'' Map.empty 50)) = 1000
   \<and> Status (fst (execCommand (example_os example_proc LogWritten)
      (example_job ''ko'' [''false''] 0) ''cron'' Map.empty 50)) = 1
   \<and> Duration (fst (execCommand (example_os example_proc LogWritten)
      (example_job ''ko'' [''false''] 0) ''cron'' Map.empty 50)) = 0
   \<and> Status (fst (execCommand (example_os example_proc LogWritten)
      (example_job ''gone'' [''missing''] 0) ''cron'' Map.empty 50)) = - 1
   \<and> Duration (fst (execCommand (example_os example_proc LogWritten)
      (example_job ''gone'' [''missing''] 0) ''cron'' Map.empty 50)) = 0"
proof -
  let ?os = "example_os example_proc LogWritten"
  have c1: "Command (example_job ''ok'' [''echo'', ''hi''] 0) = ''echo'' # [''hi'']"
    and c2: "Command (example_job ''ko'' [''false''] 0) = ''false'' # []"
    and c3: "Command (example_job ''gone'' [''missing''] 0) = ''missing'' # []"
    by (simp_all add: example_job_def)
  show ?thesis
    using C8_status_and_duration [OF c1, where os = ?os and parameters = Map.empty and x = 50
        and trigger = "''cron''"]
      C8_status_and_duration [OF c2, where os = ?os and parameters = Map.empty and x = 50
        and trigger = "''cron''"]
      C8_status_and_duration [OF c3, where os = ?os and parameters = Map.empty and x = 50
        and trigger = "''cron''"]
    by (simp add: example_defs now_def render_param_def template_defs)
qed

subsection \<open>C4: a job without a command\<close>

text \<open>
  With an empty command no process is started and the status stays at \<open>-1\<close>. The message
  is stored in \<^verbatim>\<open>jr.Log\<close> and not in the log buffer, so \<^verbatim>\<open>flushLogBuffer\<close> replaces
  it by the empty buffer: it is in the run that \<^verbatim>\<open>execCommand\<close> returns, and in no run
  that has been finalised.
\<close>

lemma finalize_Log:
  "finalize os st run j jr x = (e, jr', evs, x') \<Longrightarrow> Log jr' = logBuf jr"
  by (drule finalize_result) simp

lemma execCommand_no_command:
  "Command j = [] \<Longrightarrow>
     logBuf (fst (execCommand os j trigger parameters x)) = [] \<and>
     Status (fst (execCommand os j trigger parameters x)) = - 1 \<and>
     Log (fst (execCommand os j trigger parameters x)) = ''Job unable to start: no command specified'' \<and>
     started_argv (fst (snd (execCommand os j trigger parameters x))) = []"
  by (simp add: execCommand_def zeroJobRun_def Let_def)

text \<open>
  C4 at a job with an empty command and no retries: the run that \<^verbatim>\<open>execCommand\<close> returns
  has the message; the run that \<^verbatim>\<open>execCommandWithRetry\<close> returns, which is also the
  record appended to the job log, has status \<open>-1\<close> and an empty \<^verbatim>\<open>Log\<close>; no process is
  started.
\<close>

theorem C4_message_lost:
  "Status (fst (execCommand (example_os example_proc LogWritten)
       (example_job ''C'' [] 0) ''manual'' Map.empty 0)) = - 1
   \<and> Log (fst (execCommand (example_os example_proc LogWritten)
       (example_job ''C'' [] 0) ''manual'' Map.empty 0))
      = ''Job unable to start: no command specified''
   \<and> (\<exists>jr evs x'.
        execCommandWithRetry (Suc 0) (example_os example_proc LogWritten) no_schedule
          (example_job ''C'' [] 0) ''manual'' Map.empty 0 = (Done, jr, evs, x') \<and>
        Status jr = - 1 \<and> Log jr = [] \<and> started_argv evs = [] \<and>
        (\<exists>file. AppendLog file jr \<in> set evs))"
  by (simp add: retry_loop.simps example_defs run_defs zeroJobRun_def)

subsection \<open>C1: a schedule that does not validate\<close>

text \<open>
  \<^verbatim>\<open>Validate\<close> reports the error, with the name of the job; \<^verbatim>\<open>loadSchedule\<close> drops it
  (\<^verbatim>\<open>return Schedule{}, nil\<close>), so \<^verbatim>\<open>RunSchedule\<close> sees no error and starts the engine on
  the empty schedule.
\<close>

lemma Validate_error_loadSchedule:
  "fst (Validate os a ks s) = Some err \<Longrightarrow>
     loadSchedule os a ks (Inr s) = (zeroSchedule, None) \<and>
     RunSchedule os a ks (Inr s) = EngineStarted zeroSchedule"
  by (cases "Validate os a ks s") (simp add: loadSchedule_def RunSchedule_def)

text \<open>
  C1 at a schedule whose job \<^verbatim>\<open>a\<close> triggers a job \<^verbatim>\<open>b\<close> that does not exist, and at a
  schedule whose job \<^verbatim>\<open>a\<close> has an invalid cron expression: \<^verbatim>\<open>Validate\<close> returns the
  error that names the job, \<^verbatim>\<open>loadSchedule\<close> returns the empty schedule and no error,
  and \<^verbatim>\<open>RunSchedule\<close> starts the engine.
\<close>

theorem C1_validation_error_dropped:
  "fst (Validate (example_os example_proc LogWritten) 0 [''a''] dangling_schedule)
     = Some (''cannot find spec of job '' @ quoted ''b'' @ '' that is referenced in job '' @ quoted ''a'')
   \<and> loadSchedule (example_os example_proc LogWritten) 0 [''a''] (Inr dangling_schedule)
     = (zeroSchedule, None)
   \<and> RunSchedule (example_os example_proc LogWritten) 0 [''a''] (Inr dangling_schedule)
     = EngineStarted zeroSchedule
   \<and> fst (Validate (example_os example_proc LogWritten) 0 [''a''] bad_cron_schedule)
     = Some (''cron string for job '' @ quoted ''a'' @ '' not valid'')
   \<and> loadSchedule (example_os example_proc LogWritten) 0 [''a''] (Inr bad_cron_schedule)
     = (zeroSchedule, None)
   \<and> RunSchedule (example_os example_proc LogWritten) 0 [''a''] (Inr bad_cron_schedule)
     = EngineStarted zeroSchedule"
proof -
  have d: "fst (Validate (example_os example_proc LogWritten) 0 [''a''] dangling_schedule)
     = Some (''cannot find spec of job '' @ quoted ''b'' @ '' that is referenced in job '' @ quoted ''a'')"
    by (simp add: dangling_schedule_def example_defs)
  have c: "fst (Validate (example_os example_proc LogWritten) 0 [''a''] bad_cron_schedule)
     = Some (''cron string for job '' @ quoted ''a'' @ '' not valid'')"
    by (simp add: bad_cron_schedule_def example_defs)
  show ?thesis
    using Validate_error_loadSchedule [OF d] Validate_error_loadSchedule [OF c] d c
    by simp
qed

subsection \<open>C7: the arguments of a command are templates\<close>

lemma started_argv_run_cmd:
  "run_cmd os j trigger jr argv x = (jr1, evs, x1) \<Longrightarrow> started_argv evs = [argv]"
  by (auto simp: run_cmd_def Let_def split: prod.splits proc_outcome.splits if_splits)

text \<open>
  C7, as amended. For a command with more than one element, a process is started whose
  first argument-vector element is the first element of the command and whose every
  other element is the corresponding command element rendered as a template against
  the parameters, or that element itself, unchanged, when the template library returns
  an error for it from \<^verbatim>\<open>Parse\<close> or from \<^verbatim>\<open>Execute\<close>; what happens to one argument does
  not depend on the others.
\<close>

theorem C7_argument_templates:
  assumes "Command j = c # a # args"
  shows "\<exists>argv. started_argv (fst (snd (execCommand os j trigger parameters x))) = [argv] \<and>
           length argv = length (Command j) \<and> argv ! 0 = c \<and>
           (\<forall>i < length (a # args).
              argv ! Suc i =
                (case tmpl_parse os ((a # args) ! i) of
                   None \<Rightarrow> (a # args) ! i
                 | Some tmpl \<Rightarrow>
                     (case tmpl_execute os tmpl parameters of
                        None \<Rightarrow> (a # args) ! i
                      | Some written \<Rightarrow> written)))"
proof -
  let ?argv = "c # map (render_param os parameters) (a # args)"
  have "started_argv (fst (snd (execCommand os j trigger parameters x))) = [?argv]"
    using assms
    by (auto simp: execCommand_def Let_def split: prod.splits dest: started_argv_run_cmd)
  moreover have "\<forall>i < length (a # args).
              ?argv ! Suc i =
                (case tmpl_parse os ((a # args) ! i) of
                   None \<Rightarrow> (a # args) ! i
                 | Some tmpl \<Rightarrow>
                     (case tmpl_execute os tmpl parameters of
                        None \<Rightarrow> (a # args) ! i
                      | Some written \<Rightarrow> written))"
  proof (intro allI impI)
    fix i
    assume "i < length (a # args)"
    then have "?argv ! Suc i = render_param os parameters ((a # args) ! i)"
      by (simp only: nth_Cons_Suc nth_map)
    then show "?argv ! Suc i =
                (case tmpl_parse os ((a # args) ! i) of
                   None \<Rightarrow> (a # args) ! i
                 | Some tmpl \<Rightarrow>
                     (case tmpl_execute os tmpl parameters of
                        None \<Rightarrow> (a # args) ! i
                      | Some written \<Rightarrow> written))"
      by (simp only: render_param_def)
  qed
  ultimately show ?thesis
    using assms by (intro exI [of _ ?argv]) simp
qed

text \<open>The theorem at \<^verbatim>\<open>["echo", "{{.msg}}", "{{.msg", "plain"]\<close> with \<^verbatim>\<open>msg=hello\<close>: the
  second argument is not closed and is passed as it is.\<close>

theorem C7_argument_templates_witness:
  "started_argv (fst (snd (execCommand (example_os example_proc LogWritten)
      (example_job ''T'' [''echo'', ''{{.msg}}'', ''{{.msg'', ''plain''] 0) ''manual''
      [''msg'' \<mapsto> ''hello''] 0)))
   = [[''echo'', ''hello'', ''{{.msg'', ''plain'']]"
proof -
  let ?os = "example_os example_proc LogWritten"
  let ?j = "example_job ''T'' [''echo'', ''{{.msg}}'', ''{{.msg'', ''plain''] 0"
  have c: "Command ?j = ''echo'' # ''{{.msg}}'' # [''{{.msg'', ''plain'']"
    by (simp add: example_job_def)
  have p: "tmpl_parse ?os ''{{.msg}}'' = Some [TText [], TField ''msg'', TText []]"
    "tmpl_parse ?os ''{{.msg'' = None"
    "tmpl_parse ?os ''plain'' = Some [TText ''plain'']"
    by (simp_all add: example_os_def template_defs)
  have e: "tmpl_execute ?os [TText [], TField ''msg'', TText []] [''msg'' \<mapsto> ''hello''] = Some ''hello''"
    "tmpl_execute ?os [TText ''plain''] [''msg'' \<mapsto> ''hello''] = Some ''plain''"
    by (simp_all add: example_os_def go_execute_def)
  from C7_argument_templates [OF c, of ?os "''manual''" "[''msg'' \<mapsto> ''hello'']" 0]
  obtain argv where a: "started_argv (fst (snd (execCommand ?os ?j ''manual'' [''msg'' \<mapsto> ''hello''] 0))) = [argv]"
    "length argv = length (Command ?j)" "argv ! 0 = ''echo''"
    "\<forall>i < length [''{{.msg}}'', ''{{.msg'', ''plain''].
              argv ! Suc i =
                (case tmpl_parse ?os ([''{{.msg}}'', ''{{.msg'', ''plain''] ! i) of
                   None \<Rightarrow> [''{{.msg}}'', ''{{.msg'', ''plain''] ! i
                 | Some tmpl \<Rightarrow>
                     (case tmpl_execute ?os tmpl [''msg'' \<mapsto> ''hello''] of
                        None \<Rightarrow> [''{{.msg}}'', ''{{.msg'', ''plain''] ! i
                      | Some written \<Rightarrow> written))"
    by blast
  have "argv ! 1 = ''hello''" "argv ! 2 = ''{{.msg''" "argv ! 3 = ''plain''"
    using a(4) [rule_format, of 0] a(4) [rule_format, of 1] a(4) [rule_format, of 2] p e
    by (simp_all add: numeral_2_eq_2 numeral_3_eq_3)
  moreover have "length argv = 4"
    using a(2) c by simp
  ultimately have "argv = [''echo'', ''hello'', ''{{.msg'', ''plain'']"
    using a(3) by (intro nth_equalityI) (auto simp: less_Suc_eq numeral_eq_Suc)
  with a(1) show ?thesis by simp
qed

text \<open>
  C7 as stated fails for a template that names a parameter that was not supplied: the
  library does not report an error for a missing map key, so the argument is not passed
  as its source text \<^verbatim>\<open>{{.msg}}\<close> but as what the library prints, \<^verbatim>\<open><no value>\<close>.
\<close>

theorem C7_missing_key_counterexample:
  "started_argv (fst (snd (execCommand (example_os example_proc LogWritten)
      (example_job ''T'' [''echo'', ''{{.msg}}''] 0) ''manual'' Map.empty 0)))
   = [[''echo'', ''<no value>'']]"
  by (simp add: example_defs run_defs zeroJobRun_def template_defs)

subsection \<open>C5: a job log that cannot be written\<close>

text \<open>
  C5. When the job log of a run cannot be opened or written, \<^verbatim>\<open>finalize\<close> logs a warning
  and goes on: it is the event cascade of that run, started from the state in which the
  failed write left the surroundings, that decides whether and with what events
  \<^verbatim>\<open>finalize\<close> returns; nothing is appended to the log, and the status of the run is what
  it was.
\<close>

theorem C5_log_failure_is_a_warning:
  assumes a: "append_log os (log_file os (RunName jr @ ''.job.jsonl'')) (flushLogBuffer jr) x = (res, x1)"
    and failed: "res \<noteq> LogWritten"
    and ref: "jobRef jr \<noteq> None"
  shows "finalize os st run j jr x =
           (case OnEvent os st run j (flushLogBuffer jr) x1 of
              (e, e2, x2) \<Rightarrow>
                (e, flushLogBuffer jr,
                 [OpenLogFile (log_file os (RunName jr @ ''.job.jsonl'')),
                  (case res of
                     OpenFailed err \<Rightarrow>
                       LogCantOpen (RunName jr) (log_file os (RunName jr @ ''.job.jsonl'')) err
                   | EncodeFailed err \<Rightarrow> LogCantSave (RunName jr) err
                   | LogWritten \<Rightarrow> AppendLog (log_file os (RunName jr @ ''.job.jsonl''))
                                     (flushLogBuffer jr))]
                 @ e2, x2))
         \<and> Status (flushLogBuffer jr) = Status jr"
  using assms
  by (cases res)
     (auto simp: finalize_def logToDisk_def Let_def split: option.splits prod.splits)

text \<open>The theorem at a successful run of job \<^verbatim>\<open>a\<close> whose log cannot be opened: job
  \<^verbatim>\<open>b\<close> is triggered and the webhook is called.\<close>

theorem C5_log_failure_is_a_warning_witness:
  "\<exists>sub x2.
     finalize (example_os example_proc (OpenFailed ''permission denied'')) chain_store
       (execCommandWithRetry (Suc 0) (example_os example_proc (OpenFailed ''permission denied''))
          chain_store) job_a (run_a 0) 0
     = (Done, flushLogBuffer (run_a 0),
                  [OpenLogFile ''/var/cheek/a.job.jsonl'',
                   LogCantOpen ''a'' ''/var/cheek/a.job.jsonl'' ''permission denied'',
                   LogOnEvent ''a'' ''job_trigger'',
                   GoJob ''b'' ''job[a]'' Map.empty sub,
                   LogOnEvent ''a'' ''webhook_call'',
                   GoWebhook ''http://hook'' ''generic'' [LogWebhookResponse ''a'' ''http://hook'' ''ok'']],
                  x2)
   \<and> Status (flushLogBuffer (run_a 0)) = 0"
proof -
  let ?os = "example_os example_proc (OpenFailed ''permission denied'')"
  have a: "append_log ?os (log_file ?os (RunName (run_a 0) @ ''.job.jsonl'')) (flushLogBuffer (run_a 0)) 0
             = (OpenFailed ''permission denied'', 0)"
    by (simp add: example_os_def)
  have ref: "jobRef (run_a 0) \<noteq> None"
    by (simp add: run_a_def)
  have ev: "\<exists>sub x2. OnEvent ?os chain_store (execCommandWithRetry (Suc 0) ?os chain_store) job_a
                 (flushLogBuffer (run_a 0)) 0
              = (Done, [LogOnEvent ''a'' ''job_trigger'',
                   GoJob ''b'' ''job[a]'' Map.empty sub,
                   LogOnEvent ''a'' ''webhook_call'',
                   GoWebhook ''http://hook'' ''generic'' [LogWebhookResponse ''a'' ''http://hook'' ''ok'']], x2)"
    by (simp add: retry_loop.simps example_defs run_defs chain_defs zeroJobRun_def
          template_defs)
  have nm: "RunName (run_a 0) = ''a''" "log_file ?os ''a.job.jsonl'' = ''/var/cheek/a.job.jsonl''"
    by (simp_all add: run_a_def example_os_def)
  from ev obtain sub x2 where ev': "OnEvent ?os chain_store (execCommandWithRetry (Suc 0) ?os chain_store) job_a
                 (flushLogBuffer (run_a 0)) 0
              = (Done, [LogOnEvent ''a'' ''job_trigger'',
                   GoJob ''b'' ''job[a]'' Map.empty sub,
                   LogOnEvent ''a'' ''webhook_call'',
                   GoWebhook ''http://hook'' ''generic'' [LogWebhookResponse ''a'' ''http://hook'' ''ok'']], x2)"
    by blast
  have "Status (flushLogBuffer (run_a 0)) = 0"
    by (simp add: run_a_def)
  then show ?thesis
    using C5_log_failure_is_a_warning [OF a _ ref, of chain_store
        "execCommandWithRetry (Suc 0) ?os chain_store" job_a] ev' nm
    by simp
qed

subsection \<open>C6: what the cascade dispatches\<close>

lemma dispatched_append: "dispatched (xs @ ys) = dispatched xs @ dispatched ys"
  by (induction xs rule: dispatched.induct) auto

lemma notified_append: "notified (xs @ ys) = notified xs @ notified ys"
  by (induction xs rule: notified.induct) auto

lemma trigger_jobs_dispatched:
  assumes "globalSchedule j = Some a"
    and "\<And>tn. tn \<in> set tns \<Longrightarrow>
           \<exists>tj. Jobs (st a) tn = Some tj \<and>
                (\<forall>x. \<exists>jr' sub x1. run tj (''job['' @ Name j @ '']'') Map.empty x
                           = (Done, jr', sub, x1))"
  shows "\<exists>evs x'. trigger_jobs run st j tns x = (Done, evs, x') \<and>
           dispatched evs = map (\<lambda>tn. (tn, ''job['' @ Name j @ '']'', Map.empty)) tns \<and>
           notified evs = [] \<and>
           (\<forall>tn trig ps sub. GoJob tn trig ps sub \<in> set evs \<longrightarrow>
              (\<exists>tj x0 jr' x1. Jobs (st a) tn = Some tj \<and>
                  run tj trig ps x0 = (Done, jr', sub, x1)))"
  using assms(2)
proof (induction tns arbitrary: x)
  case Nil
  then show ?case by simp
next
  case (Cons tn tns)
  from Cons.prems [of tn] obtain tj where
    tj: "Jobs (st a) tn = Some tj"
    and ret: "\<And>x. \<exists>jr' sub x1. run tj (''job['' @ Name j @ '']'') Map.empty x
                           = (Done, jr', sub, x1)"
    by auto
  obtain jr sub x1 where r: "run tj (''job['' @ Name j @ '']'') Map.empty x = (Done, jr, sub, x1)"
    using ret [of x] by blast
  from Cons.IH [of x1] Cons.prems obtain evs x' where
    ih: "trigger_jobs run st j tns x1 = (Done, evs, x')"
      "dispatched evs = map (\<lambda>tn. (tn, ''job['' @ Name j @ '']'', Map.empty)) tns"
      "notified evs = []"
      "\<forall>tn trig ps sub. GoJob tn trig ps sub \<in> set evs \<longrightarrow>
              (\<exists>tj x0 jr' x1. Jobs (st a) tn = Some tj \<and>
                  run tj trig ps x0 = (Done, jr', sub, x1))"
    by (metis list.set_intros(2))
  have "trigger_jobs run st j (tn # tns) x
          = (Done, LogOnEvent (Name j) ''job_trigger''
                       # GoJob tn (''job['' @ Name j @ '']'') Map.empty sub # evs, x')"
    using assms(1) tj r ih(1) by simp
  then show ?case
    using ih(2,3,4) tj r by auto
qed

lemma call_webhooks_notified:
  "call_webhooks os j jr kind label wus x = (evs, x') \<Longrightarrow>
     notified evs = map (\<lambda>u. (u, kind)) wus \<and> dispatched evs = [] \<and>
     (\<forall>tn trig ps sub. GoJob tn trig ps sub \<notin> set evs)"
  by (induction wus arbitrary: x evs x') (auto split: prod.splits)

text \<open>
  C6. For a job of a schedule and a run of it, let \<open>loc\<close> be the job's \<^verbatim>\<open>on_success\<close>
  when the status of the run is 0 and its \<^verbatim>\<open>on_error\<close> otherwise, and \<open>glob\<close> the
  schedule's, chosen in the same way. When every job listed is in the schedule and its
  retry-wrapped execution returns, \<^verbatim>\<open>OnEvent\<close> returns, and it has started one goroutine
  for each name of the job's list followed by the schedule's list, in this order, each
  with the trigger descriptor \<^verbatim>\<open>job[<parent-name>]\<close> and the empty parameter mapping,
  and each running \<^verbatim>\<open>execCommandWithRetry\<close> on the job looked up under that name; the
  webhooks called are those of the two lists, local first, generic before slack.
\<close>

theorem C6_cascade_dispatch:
  assumes sched: "globalSchedule j = Some a"
    and local: "loc = (if Status jr = 0 then OnSuccess j else OnError j)"
    and global: "glob = (if Status jr = 0 then SchedOnSuccess (st a) else SchedOnError (st a))"
    and deps: "\<And>tn. tn \<in> set (TriggerJob loc @ TriggerJob glob) \<Longrightarrow>
           \<exists>tj. Jobs (st a) tn = Some tj \<and>
                (\<forall>x. \<exists>jr' sub x1.
                    execCommandWithRetry depth os st tj (''job['' @ Name j @ '']'') Map.empty x
                      = (Done, jr', sub, x1))"
  shows "\<exists>evs x'.
     OnEvent os st (execCommandWithRetry depth os st) j jr x = (Done, evs, x') \<and>
     dispatched evs
       = map (\<lambda>tn. (tn, ''job['' @ Name j @ '']'', Map.empty)) (TriggerJob loc @ TriggerJob glob) \<and>
     notified evs
       = map (\<lambda>u. (u, ''generic'')) (NotifyWebhook loc @ NotifyWebhook glob)
         @ map (\<lambda>u. (u, ''slack'')) (NotifySlackWebhook loc @ NotifySlackWebhook glob) \<and>
     (\<forall>tn trig ps sub. GoJob tn trig ps sub \<in> set evs \<longrightarrow>
        (\<exists>tj x0 jr' x1. Jobs (st a) tn = Some tj \<and>
            execCommandWithRetry depth os st tj trig ps x0 = (Done, jr', sub, x1)))"
proof -
  have sel: "select_actions st j jr
      = (TriggerJob loc @ TriggerJob glob, NotifyWebhook loc @ NotifyWebhook glob,
         NotifySlackWebhook loc @ NotifySlackWebhook glob)"
    using sched local global by (simp add: select_actions_def)
  from trigger_jobs_dispatched [where run = "execCommandWithRetry depth os st" and st = st
      and tns = "TriggerJob loc @ TriggerJob glob" and x = x, OF sched deps]
  obtain e1 x1 where t:
      "trigger_jobs (execCommandWithRetry depth os st) st j (TriggerJob loc @ TriggerJob glob) x
         = (Done, e1, x1)"
      "dispatched e1
         = map (\<lambda>tn. (tn, ''job['' @ Name j @ '']'', Map.empty)) (TriggerJob loc @ TriggerJob glob)"
      "notified e1 = []"
      "\<forall>tn trig ps sub. GoJob tn trig ps sub \<in> set e1 \<longrightarrow>
              (\<exists>tj x0 jr' x1. Jobs (st a) tn = Some tj \<and>
                  execCommandWithRetry depth os st tj trig ps x0 = (Done, jr', sub, x1))"
    by blast
  obtain e2 x2 where w2: "call_webhooks os j jr ''generic'' ''webhook_call''
        (NotifyWebhook loc @ NotifyWebhook glob) x1 = (e2, x2)"
    by (cases "call_webhooks os j jr ''generic'' ''webhook_call''
        (NotifyWebhook loc @ NotifyWebhook glob) x1") auto
  obtain e3 x3 where w3: "call_webhooks os j jr ''slack'' ''slack_webhook_call''
        (NotifySlackWebhook loc @ NotifySlackWebhook glob) x2 = (e3, x3)"
    by (cases "call_webhooks os j jr ''slack'' ''slack_webhook_call''
        (NotifySlackWebhook loc @ NotifySlackWebhook glob) x2") auto
  have res: "OnEvent os st (execCommandWithRetry depth os st) j jr x = (Done, e1 @ e2 @ e3, x3)"
    using sel t(1) w2 w3 by (simp add: OnEvent_def)
  have "dispatched (e1 @ e2 @ e3)
       = map (\<lambda>tn. (tn, ''job['' @ Name j @ '']'', Map.empty)) (TriggerJob loc @ TriggerJob glob)"
    using t(2) call_webhooks_notified [OF w2] call_webhooks_notified [OF w3]
    by (simp only: dispatched_append) simp
  moreover have "notified (e1 @ e2 @ e3)
       = map (\<lambda>u. (u, ''generic'')) (NotifyWebhook loc @ NotifyWebhook glob)
         @ map (\<lambda>u. (u, ''slack'')) (NotifySlackWebhook loc @ NotifySlackWebhook glob)"
    using t(3) call_webhooks_notified [OF w2] call_webhooks_notified [OF w3]
    by (simp only: notified_append) simp
  moreover have "\<forall>tn trig ps sub. GoJob tn trig ps sub \<in> set (e1 @ e2 @ e3) \<longrightarrow>
        (\<exists>tj x0 jr' x1. Jobs (st a) tn = Some tj \<and>
            execCommandWithRetry depth os st tj trig ps x0 = (Done, jr', sub, x1))"
    using t(4) call_webhooks_notified [OF w2] call_webhooks_notified [OF w3]
    by auto
  ultimately show ?thesis
    using res by blast
qed

text \<open>The theorem at job \<^verbatim>\<open>a\<close> of the example schedule, for a run with status 0 and for
  a run with status 1.\<close>

theorem C6_cascade_dispatch_witness:
  "(\<exists>evs x'.
     OnEvent (example_os example_proc LogWritten) chain_store
       (execCommandWithRetry (Suc 0) (example_os example_proc LogWritten) chain_store)
       job_a (run_a 0) 0 = (Done, evs, x') \<and>
     dispatched evs = [(''b'', ''job[a]'', Map.empty)] \<and>
     notified evs = [(''http://hook'', ''generic'')])
   \<and> (\<exists>evs x'.
     OnEvent (example_os example_proc LogWritten) chain_store
       (execCommandWithRetry (Suc 0) (example_os example_proc LogWritten) chain_store)
       job_a (run_a 1) 0 = (Done, evs, x') \<and>
     dispatched evs = [(''report'', ''job[a]'', Map.empty)] \<and>
     notified evs = [])"
proof -
  let ?os = "example_os example_proc LogWritten"
  have sched: "globalSchedule job_a = Some 0"
    by (simp add: chain_defs example_job_def)
  have ok: "\<And>tn. tn \<in> set (TriggerJob (OnSuccess job_a) @ TriggerJob (SchedOnSuccess (chain_store 0))) \<Longrightarrow>
           \<exists>tj. Jobs (chain_store 0) tn = Some tj \<and>
                (\<forall>x. \<exists>jr' sub x1.
                    execCommandWithRetry (Suc 0) ?os chain_store tj (''job['' @ Name job_a @ '']'') Map.empty x
                      = (Done, jr', sub, x1))"
    by (simp add: retry_loop.simps example_defs run_defs chain_defs zeroJobRun_def
          template_defs)
  have ko: "\<And>tn. tn \<in> set (TriggerJob (OnError job_a) @ TriggerJob (SchedOnError (chain_store 0))) \<Longrightarrow>
           \<exists>tj. Jobs (chain_store 0) tn = Some tj \<and>
                (\<forall>x. \<exists>jr' sub x1.
                    execCommandWithRetry (Suc 0) ?os chain_store tj (''job['' @ Name job_a @ '']'') Map.empty x
                      = (Done, jr', sub, x1))"
    by (simp add: retry_loop.simps example_defs run_defs chain_defs zeroJobRun_def
          template_defs)
  have s0: "OnSuccess job_a = (if Status (run_a 0) = 0 then OnSuccess job_a else OnError job_a)"
    "SchedOnSuccess (chain_store 0)
       = (if Status (run_a 0) = 0 then SchedOnSuccess (chain_store 0) else SchedOnError (chain_store 0))"
    by (simp_all add: run_a_def zeroJobRun_def)
  have s1: "OnError job_a = (if Status (run_a 1) = 0 then OnSuccess job_a else OnError job_a)"
    "SchedOnError (chain_store 0)
       = (if Status (run_a 1) = 0 then SchedOnSuccess (chain_store 0) else SchedOnError (chain_store 0))"
    by (simp_all add: run_a_def zeroJobRun_def)
  have l: "TriggerJob (OnSuccess job_a) @ TriggerJob (SchedOnSuccess (chain_store 0)) = [''b'']"
    "NotifyWebhook (OnSuccess job_a) @ NotifyWebhook (SchedOnSuccess (chain_store 0)) = [''http://hook'']"
    "NotifySlackWebhook (OnSuccess job_a) @ NotifySlackWebhook (SchedOnSuccess (chain_store 0)) = []"
    "TriggerJob (OnError job_a) @ TriggerJob (SchedOnError (chain_store 0)) = [''report'']"
    "NotifyWebhook (OnError job_a) @ NotifyWebhook (SchedOnError (chain_store 0)) = []"
    "NotifySlackWebhook (OnError job_a) @ NotifySlackWebhook (SchedOnError (chain_store 0)) = []"
    "Name job_a = ''a''"
    by (simp_all add: chain_defs example_defs)
  show ?thesis
    using C6_cascade_dispatch [where os = ?os and depth = "Suc 0" and st = chain_store and x = 0,
        OF sched s0 ok]
      C6_cascade_dispatch [where os = ?os and depth = "Suc 0" and st = chain_store and x = 0,
        OF sched s1 ko]
    unfolding l by (simp; blast)
qed

end
